theory Spec2Isabelle
  imports Complex_Main "HOL-Library.Log_Nat"
begin

section \<open>Host values: exceptions, numbers, binary floating point\<close>

text \<open>
  The package \<open>zulu\<close> is a thin layer over CPython 3's \<open>datetime\<close> module and over
  \<open>pytz\<close>. The functions of \<open>src/zulu/utc.py\<close> and \<open>src/zulu/timedelta.py\<close> are
  translated one by one further below; this first part fixes the behaviour of the host
  operations they call. Every exception the host or the package can raise is a value of
  \<open>error\<close>, and a computation that may raise returns \<open>error + 'a\<close>.
\<close>

datatype error =
    ValueError | OverflowError | TypeError | ZeroDivisionError | AttributeError
  | UnknownTimeZoneError | AmbiguousTimeError | NonExistentTimeError | ParseError

definition and_then :: "error + 'a \<Rightarrow> ('a \<Rightarrow> error + 'b) \<Rightarrow> error + 'b" where
  "and_then m f = (case m of Inl e \<Rightarrow> Inl e | Inr x \<Rightarrow> f x)"

text \<open>
  A Python \<open>float\<close> is an IEEE 754 binary64 number. A finite one is modelled by the
  rational number it denotes; \<open>to_double\<close> rounds an exact rational result to the nearest
  number with a 53 bit significand, ties to even, which is what every float operation of
  the host does. The exponent range is not modelled: all magnitudes that occur below lie
  between \<open>10^-6\<close> and \<open>10^14\<close>.
\<close>

datatype number = PyInt int | PyFloat rat

definition round_half_even :: "rat \<Rightarrow> int" where
  "round_half_even x =
     (let f = \<lfloor>x\<rfloor>; d = x - of_int f
      in if d < 1 / 2 then f else if 1 / 2 < d then f + 1 else if even f then f else f + 1)"

definition pow2 :: "int \<Rightarrow> rat" where
  "pow2 e = (if 0 \<le> e then 2 ^ nat e else 1 / 2 ^ nat (- e))"

definition ilog2 :: "rat \<Rightarrow> int" where
  "ilog2 x = (let (p, q) = quotient_of \<bar>x\<bar>; k = bitlen p - bitlen q
              in if pow2 k \<le> \<bar>x\<bar> then k else k - 1)"

definition to_double :: "rat \<Rightarrow> rat" where
  "to_double x =
     (if x = 0 then 0
      else let s = ilog2 x - 52 in of_int (round_half_even (x / pow2 s)) * pow2 s)"

text \<open>C's \<open>modf\<close>: the integral part, truncated towards zero.\<close>

definition trunc :: "rat \<Rightarrow> int" where
  "trunc x = (if 0 \<le> x then \<lfloor>x\<rfloor> else \<lceil>x\<rceil>)"

section \<open>The native duration \<open>datetime.timedelta\<close>\<close>

text \<open>
  A \<open>timedelta\<close> is normalised by the host to days, seconds and microseconds with
  \<open>0 \<le> seconds < 86400\<close> and \<open>0 \<le> microseconds < 10^6\<close>; it is modelled by its total
  number of microseconds, from which the three fields are read back. The host accepts a
  duration only if its \<open>days\<close> field has magnitude at most 999999999.
\<close>

definition us_per_day :: int where
  "us_per_day = 86400000000"

definition td_days :: "int \<Rightarrow> int" where
  "td_days us = us div us_per_day"

definition td_seconds :: "int \<Rightarrow> int" where
  "td_seconds us = (us mod us_per_day) div 1000000"

definition td_microseconds :: "int \<Rightarrow> int" where
  "td_microseconds us = us mod 1000000"

definition microseconds_to_delta :: "int \<Rightarrow> error + int" where
  "microseconds_to_delta us =
     (if - 999999999 \<le> td_days us \<and> td_days us \<le> 999999999 then Inr us
      else Inl OverflowError)"

definition timedelta_min :: int where
  "timedelta_min = - 999999999 * us_per_day"

definition timedelta_max :: int where
  "timedelta_max = 999999999 * us_per_day + (23 * 3600 + 59 * 60 + 59) * 1000000 + 999999"

definition timedelta_resolution :: int where
  "timedelta_resolution = 1"

text \<open>
  The constructor \<open>timedelta(days, seconds, microseconds, milliseconds, minutes, hours,
  weeks)\<close>, every argument an \<open>int\<close> or a \<open>float\<close>. CPython adds the arguments up in
  microseconds (\<open>accum\<close> in \<open>_datetimemodule.c\<close>): an integer exactly; a float split by
  \<open>modf\<close> into its integral part, added exactly, and its fractional part, which is
  multiplied by the unit in float arithmetic and split again, the new fraction going into
  the float \<open>leftover\<close>. At the end \<open>leftover\<close> is rounded half to even into the sum.
\<close>

fun accum :: "int \<times> rat \<Rightarrow> number \<Rightarrow> int \<Rightarrow> int \<times> rat" where
  "accum (sofar, leftover) (PyInt n) factor = (sofar + n * factor, leftover)"
| "accum (sofar, leftover) (PyFloat dnum) factor =
     (let intpart = trunc dnum;
          fracpart = dnum - of_int intpart;
          s = sofar + intpart * factor
      in if fracpart = 0 then (s, leftover)
         else let dnum' = to_double (of_int factor * fracpart);
                  intpart' = trunc dnum';
                  fracpart' = dnum' - of_int intpart'
              in (s + intpart', to_double (leftover + fracpart')))"

definition timedelta_new ::
  "number \<Rightarrow> number \<Rightarrow> number \<Rightarrow> number \<Rightarrow> number \<Rightarrow> number \<Rightarrow> number \<Rightarrow> error + int" where
  "timedelta_new days seconds microseconds milliseconds minutes hours weeks =
     (let a1 = accum (0, 0) microseconds 1;
          a2 = accum a1 milliseconds 1000;
          a3 = accum a2 seconds 1000000;
          a4 = accum a3 minutes 60000000;
          a5 = accum a4 hours 3600000000;
          a6 = accum a5 days us_per_day;
          a7 = accum a6 weeks (7 * us_per_day)
      in microseconds_to_delta (round_half_even (of_int (fst a7) + snd a7)))"

text \<open>\<open>timedelta.total_seconds()\<close>: the true division of two integers, correctly rounded.\<close>

definition total_seconds :: "int \<Rightarrow> rat" where
  "total_seconds us = to_double (of_int us / 1000000)"

section \<open>The native calendar and \<open>datetime.datetime\<close>\<close>

text \<open>
  The host counts days in the proleptic Gregorian calendar: day 1 is 0001-01-01. The
  conversions between a date and its ordinal are those of \<open>_ymd2ord\<close> and \<open>_ord2ymd\<close>
  of the \<open>datetime\<close> module, tables included; \<open>md_of\<close> is the last part of \<open>_ord2ymd\<close>,
  which finds month and day from the zero-based day of the year.
\<close>

definition is_leap :: "int \<Rightarrow> bool" where
  "is_leap y = (y mod 4 = 0 \<and> (y mod 100 \<noteq> 0 \<or> y mod 400 = 0))"

definition days_before_year :: "int \<Rightarrow> int" where
  "days_before_year y = (let y1 = y - 1 in y1 * 365 + y1 div 4 - y1 div 100 + y1 div 400)"

definition DAYS_IN_MONTH :: "int list" where
  "DAYS_IN_MONTH = [- 1, 31, 28, 31, 30, 31, 30, 31, 31, 30, 31, 30, 31]"

definition DAYS_BEFORE_MONTH :: "int list" where
  "DAYS_BEFORE_MONTH = [- 1, 0, 31, 59, 90, 120, 151, 181, 212, 243, 273, 304, 334]"

definition days_in_month :: "int \<Rightarrow> int \<Rightarrow> int" where
  "days_in_month y m = (if m = 2 \<and> is_leap y then 29 else DAYS_IN_MONTH ! nat m)"

definition days_before_month :: "int \<Rightarrow> int \<Rightarrow> int" where
  "days_before_month y m = DAYS_BEFORE_MONTH ! nat m + (if 2 < m \<and> is_leap y then 1 else 0)"

definition ymd2ord :: "int \<Rightarrow> int \<Rightarrow> int \<Rightarrow> int" where
  "ymd2ord y m d = days_before_year y + days_before_month y m + d"

definition md_of :: "bool \<Rightarrow> int \<Rightarrow> int \<times> int" where
  "md_of leapyear n =
     (let m = (n + 50) div 32;
          preceding = DAYS_BEFORE_MONTH ! nat m + (if 2 < m \<and> leapyear then 1 else 0)
      in if n < preceding
         then let m = m - 1;
                  preceding = preceding
                    - (DAYS_IN_MONTH ! nat m + (if m = 2 \<and> leapyear then 1 else 0))
              in (m, n - preceding + 1)
         else (m, n - preceding + 1))"

definition ord2ymd :: "int \<Rightarrow> int \<times> int \<times> int" where
  "ord2ymd n0 =
     (let n = n0 - 1;
          n400 = n div 146097; n = n mod 146097;
          y = n400 * 400 + 1;
          n100 = n div 36524; n = n mod 36524;
          n4 = n div 1461; n = n mod 1461;
          n1 = n div 365; n = n mod 365;
          y = y + n100 * 100 + n4 * 4 + n1
      in if n1 = 4 \<or> n100 = 4 then (y - 1, 12, 31)
         else (y, md_of (n1 = 3 \<and> (n4 \<noteq> 24 \<or> n100 = 3)) n))"

definition MAXORDINAL :: int where
  "MAXORDINAL = 3652059"

text \<open>The seven calendar fields of a \<open>datetime\<close>, and the constructor's range checks.\<close>

record naive =
  n_year :: int
  n_month :: int
  n_day :: int
  n_hour :: int
  n_minute :: int
  n_second :: int
  n_microsecond :: int

definition valid_date :: "int \<Rightarrow> int \<Rightarrow> int \<Rightarrow> bool" where
  "valid_date y m d = (1 \<le> m \<and> m \<le> 12 \<and> 1 \<le> d \<and> d \<le> days_in_month y m)"

definition valid_naive :: "naive \<Rightarrow> bool" where
  "valid_naive n =
     (1 \<le> n_year n \<and> n_year n \<le> 9999 \<and> valid_date (n_year n) (n_month n) (n_day n)
      \<and> 0 \<le> n_hour n \<and> n_hour n \<le> 23 \<and> 0 \<le> n_minute n \<and> n_minute n \<le> 59
      \<and> 0 \<le> n_second n \<and> n_second n \<le> 59
      \<and> 0 \<le> n_microsecond n \<and> n_microsecond n \<le> 999999)"

definition datetime_new ::
  "int \<Rightarrow> int \<Rightarrow> int \<Rightarrow> int \<Rightarrow> int \<Rightarrow> int \<Rightarrow> int \<Rightarrow> error + naive" where
  "datetime_new year month day hour minute second microsecond =
     (let n = \<lparr>n_year = year, n_month = month, n_day = day, n_hour = hour,
                n_minute = minute, n_second = second, n_microsecond = microsecond\<rparr>
      in if valid_naive n then Inr n else Inl ValueError)"

text \<open>
  Arithmetic on a \<open>datetime\<close> goes through the number of microseconds since the start of
  day 0: \<open>naive_to_us\<close> reads the fields, \<open>naive_of_us\<close> builds them and raises
  \<open>OverflowError\<close> outside the years 1 to 9999.
\<close>

definition naive_to_us :: "naive \<Rightarrow> int" where
  "naive_to_us n =
     ymd2ord (n_year n) (n_month n) (n_day n) * us_per_day
       + ((n_hour n * 60 + n_minute n) * 60 + n_second n) * 1000000 + n_microsecond n"

definition naive_of_us :: "int \<Rightarrow> error + naive" where
  "naive_of_us x =
     (let days = x div us_per_day;
          rest = x mod us_per_day;
          secs = rest div 1000000
      in if 1 \<le> days \<and> days \<le> MAXORDINAL
         then (case ord2ymd days of
                 (y, m, d) \<Rightarrow>
                   Inr \<lparr>n_year = y, n_month = m, n_day = d, n_hour = secs div 3600,
                        n_minute = (secs mod 3600) div 60, n_second = secs mod 60,
                        n_microsecond = rest mod 1000000\<rparr>)
         else Inl OverflowError)"

subsection \<open>Time zones\<close>

text \<open>
  A time zone is given by its history of offsets from UTC: the offset in force before the
  first transition, and the transitions in ascending order, each with the UTC instant at
  which it happens and the offset from then on (instants and offsets in microseconds). A
  \<open>tzinfo\<close> object is either a \<open>pytz\<close> zone, which has the method \<open>localize\<close>, or an
  object without it (\<open>datetime.timezone\<close>, a \<open>dateutil\<close> or \<open>zoneinfo\<close> zone).
\<close>

record zone =
  z_name :: string
  z_init :: int
  z_trans :: "(int \<times> int) list"

datatype tzinfo = Pytz zone | Plain zone

fun tz_zone :: "tzinfo \<Rightarrow> zone" where
  "tz_zone (Pytz z) = z"
| "tz_zone (Plain z) = z"

definition pytz_UTC :: tzinfo where
  "pytz_UTC = Pytz \<lparr>z_name = ''UTC'', z_init = 0, z_trans = []\<rparr>"

text \<open>The offset in force at a UTC instant; \<open>tz.fromutc\<close> adds it to the instant.\<close>

fun offset_from :: "int \<Rightarrow> (int \<times> int) list \<Rightarrow> int \<Rightarrow> int" where
  "offset_from cur [] u = cur"
| "offset_from cur ((t, off) # rest) u = (if u < t then cur else offset_from off rest u)"

definition utcoffset_at :: "zone \<Rightarrow> int \<Rightarrow> int" where
  "utcoffset_at z u = offset_from (z_init z) (z_trans z) u"

text \<open>
  \<open>utcoffset(dt)\<close> of an object without \<open>localize\<close> is asked with the wall clock time. It
  never fails: around a transition it keeps the earlier offset until the wall clock has
  passed both readings of the transition instant, so a time that occurs twice is taken as
  its first occurrence and a time that is skipped is read with the offset before the gap
  (the convention of PEP 495 for \<open>fold=0\<close>, which is what the constructor produces).
\<close>

fun wall_offset_from :: "int \<Rightarrow> (int \<times> int) list \<Rightarrow> int \<Rightarrow> int" where
  "wall_offset_from cur [] w = cur"
| "wall_offset_from cur ((t, off) # rest) w =
     (if w < t + max cur off then cur else wall_offset_from off rest w)"

definition wall_utcoffset :: "zone \<Rightarrow> int \<Rightarrow> int" where
  "wall_utcoffset z w = wall_offset_from (z_init z) (z_trans z) w"

text \<open>
  The UTC instants whose local reading in the zone is the wall clock time \<open>w\<close>. The time
  is nonexistent in the zone if there is none, and ambiguous if there are several.
\<close>

definition zone_offsets :: "zone \<Rightarrow> int list" where
  "zone_offsets z = z_init z # map snd (z_trans z)"

definition candidates :: "zone \<Rightarrow> int \<Rightarrow> int list" where
  "candidates z w =
     remdups (map (\<lambda>off. w - off) (filter (\<lambda>off. utcoffset_at z (w - off) = off) (zone_offsets z)))"

definition nonexistent :: "zone \<Rightarrow> int \<Rightarrow> bool" where
  "nonexistent z w = (candidates z w = [])"

definition ambiguous :: "zone \<Rightarrow> int \<Rightarrow> bool" where
  "ambiguous z w = (1 < length (candidates z w))"

definition dst_observing :: "zone \<Rightarrow> bool" where
  "dst_observing z = (z_trans z \<noteq> [])"

subsection \<open>Native instants\<close>

text \<open>
  A \<open>datetime\<close> object: its calendar fields, its \<open>tzinfo\<close> (\<open>None\<close> for a naive one) and,
  for an aware one, the value of its \<open>utcoffset()\<close>.
\<close>

record pydatetime =
  dt_naive :: naive
  dt_tzinfo :: "tzinfo option"
  dt_off :: int

text \<open>\<open>naive.replace(tzinfo=tz)\<close> for an object without \<open>localize\<close>.\<close>

definition replace_tzinfo :: "naive \<Rightarrow> zone \<Rightarrow> pydatetime" where
  "replace_tzinfo n z =
     \<lparr>dt_naive = n, dt_tzinfo = Some (Plain z), dt_off = wall_utcoffset z (naive_to_us n)\<rparr>"

text \<open>
  \<open>tz.localize(naive, is_dst=None)\<close> of \<open>pytz\<close>. A zone with a single offset attaches
  itself. A zone with transitions first looks one day before and one day after the given
  time, which overflows on the first and on the last day of the calendar; then, as \<open>pytz\<close>
  documents for \<open>is_dst=None\<close>, it refuses to guess: \<open>NonExistentTimeError\<close> for a time
  that is skipped and \<open>AmbiguousTimeError\<close> for a time that occurs twice.
\<close>

definition pytz_localize :: "zone \<Rightarrow> naive \<Rightarrow> error + pydatetime" where
  "pytz_localize z n =
     (let w = naive_to_us n
      in if z_trans z = []
         then Inr \<lparr>dt_naive = n, dt_tzinfo = Some (Pytz z), dt_off = z_init z\<rparr>
         else if w div us_per_day - 1 < 1 \<or> MAXORDINAL < w div us_per_day + 1
         then Inl OverflowError
         else (case candidates z w of
                 [] \<Rightarrow> Inl NonExistentTimeError
               | [u] \<Rightarrow> Inr \<lparr>dt_naive = n, dt_tzinfo = Some (Pytz z), dt_off = w - u\<rparr>
               | _ \<Rightarrow> Inl AmbiguousTimeError))"

text \<open>
  \<open>dt.astimezone(tz)\<close> of an aware \<open>datetime\<close>: nothing to do if \<open>tz\<close> is the zone of
  \<open>dt\<close>; otherwise the offset (which the host requires to be shorter than a day) is
  subtracted and \<open>tz.fromutc\<close> adds the offset of \<open>tz\<close> at that instant. In this
  program the receiver is always aware.
\<close>

definition native_astimezone :: "pydatetime \<Rightarrow> tzinfo \<Rightarrow> error + pydatetime" where
  "native_astimezone d tz =
     (case dt_tzinfo d of
        None \<Rightarrow> Inl ValueError
      | Some own \<Rightarrow>
          if own = tz then Inr d
          else if \<not> (- us_per_day < dt_off d \<and> dt_off d < us_per_day) then Inl ValueError
          else and_then (naive_of_us (naive_to_us (dt_naive d) - dt_off d))
                 (\<lambda>utc. let u = naive_to_us utc; off = utcoffset_at (tz_zone tz) u
                        in and_then (naive_of_us (u + off))
                             (\<lambda>n. Inr \<lparr>dt_naive = n, dt_tzinfo = Some tz, dt_off = off\<rparr>)))"

text \<open>\<open>dt + timedelta\<close>: wall clock arithmetic, the \<open>tzinfo\<close> is kept.\<close>

definition datetime_add :: "pydatetime \<Rightarrow> int \<Rightarrow> error + pydatetime" where
  "datetime_add d td =
     and_then (naive_of_us (naive_to_us (dt_naive d) + td))
       (\<lambda>n. Inr (d\<lparr>dt_naive := n,
                    dt_off := (case dt_tzinfo d of
                                 Some (Plain z) \<Rightarrow> wall_utcoffset z (naive_to_us n)
                               | _ \<Rightarrow> dt_off d)\<rparr>))"

text \<open>
  \<open>dt1 - dt2\<close>: both naive or both aware; with the same \<open>tzinfo\<close> the difference of the
  wall clocks, otherwise the difference of the UTC instants.
\<close>

definition datetime_sub_datetime :: "pydatetime \<Rightarrow> pydatetime \<Rightarrow> error + int" where
  "datetime_sub_datetime a b =
     (let base = naive_to_us (dt_naive a) - naive_to_us (dt_naive b)
      in case (dt_tzinfo a, dt_tzinfo b) of
           (None, None) \<Rightarrow> microseconds_to_delta base
         | (Some x, Some y) \<Rightarrow>
             if x = y then microseconds_to_delta base
             else microseconds_to_delta (base + dt_off b - dt_off a)
         | _ \<Rightarrow> Inl TypeError)"

text \<open>
  \<open>datetime.fromtimestamp(t, tz)\<close>: the timestamp is rounded half to even to whole
  microseconds (a float after multiplying its fractional part by \<open>10^6\<close> in float
  arithmetic), counted from 1970-01-01, and handed to \<open>tz.fromutc\<close>.
\<close>

definition EPOCH_us :: int where
  "EPOCH_us = 719163 * us_per_day"

definition timestamp_us :: "number \<Rightarrow> int" where
  "timestamp_us t =
     (case t of
        PyInt k \<Rightarrow> k * 1000000
      | PyFloat d \<Rightarrow>
          (let intpart = trunc d; floatpart = d - of_int intpart
           in intpart * 1000000 + round_half_even (to_double (floatpart * 1000000))))"

definition datetime_fromtimestamp :: "number \<Rightarrow> tzinfo \<Rightarrow> error + pydatetime" where
  "datetime_fromtimestamp t tz =
     (case naive_of_us (EPOCH_us + timestamp_us t) of
        Inl e \<Rightarrow> Inl ValueError
      | Inr utc \<Rightarrow>
          (let u = naive_to_us utc; off = utcoffset_at (tz_zone tz) u
           in and_then (naive_of_us (u + off))
                (\<lambda>n. Inr \<lparr>dt_naive = n, dt_tzinfo = Some tz, dt_off = off\<rparr>)))"

text \<open>\<open>datetime.fromordinal(n)\<close>: midnight of day \<open>n\<close>, naive.\<close>

definition datetime_fromordinal :: "int \<Rightarrow> error + pydatetime" where
  "datetime_fromordinal n =
     (if 1 \<le> n \<and> n \<le> MAXORDINAL
      then (case ord2ymd n of
              (y, m, d) \<Rightarrow>
                Inr \<lparr>dt_naive = \<lparr>n_year = y, n_month = m, n_day = d, n_hour = 0, n_minute = 0,
                                  n_second = 0, n_microsecond = 0\<rparr>,
                     dt_tzinfo = None, dt_off = 0\<rparr>)
      else Inl ValueError)"

text \<open>
  The private field of a \<open>DateTime\<close> is one native instant. The type is declared here
  because \<open>DateTime\<close> objects are among the operands of the operators below.
\<close>

record DateTime =
  datetime :: pydatetime

section \<open>Python values\<close>

text \<open>
  The operands and results of the operators are dynamically typed. \<open>VTimedelta\<close> is an
  instance of the bare native duration type, \<open>VDelta\<close> an instance of its subclass
  \<open>Delta\<close>; both carry the duration in microseconds. \<open>VDatetime\<close> is a native
  instant and \<open>VDateTime\<close> an instance of the package's class. \<open>VNotImplemented\<close> is the value a
  binary special method returns for an operand it does not support.
\<close>

datatype pyval =
    VInt int | VFloat rat | VTimedelta int | VDelta int
  | VDatetime pydatetime | VDateTime DateTime
  | VTuple "pyval list" | VNotImplemented | VOther

text \<open>\<open>isinstance(v, timedelta)\<close> holds for the native type and for its subclass.\<close>

fun as_timedelta :: "pyval \<Rightarrow> int option" where
  "as_timedelta (VTimedelta us) = Some us"
| "as_timedelta (VDelta us) = Some us"
| "as_timedelta _ = None"

definition is_Delta :: "pyval \<Rightarrow> bool" where
  "is_Delta v = (case v of VDelta _ \<Rightarrow> True | _ \<Rightarrow> False)"

definition is_bare_timedelta :: "pyval \<Rightarrow> bool" where
  "is_bare_timedelta v = (case v of VTimedelta _ \<Rightarrow> True | _ \<Rightarrow> False)"

subsection \<open>The native arithmetic methods of \<open>timedelta\<close>\<close>

text \<open>
  Each takes the duration of \<open>self\<close> and the other operand. Their results are of the bare
  native type whatever the class of \<open>self\<close>.
\<close>

definition new_delta :: "int \<Rightarrow> error + pyval" where
  "new_delta us = and_then (microseconds_to_delta us) (\<lambda>r. Inr (VTimedelta r))"

definition timedelta_add :: "int \<Rightarrow> pyval \<Rightarrow> error + pyval" where
  "timedelta_add self other =
     (case as_timedelta other of Some o_us \<Rightarrow> new_delta (self + o_us)
      | None \<Rightarrow> Inr VNotImplemented)"

definition timedelta_radd :: "int \<Rightarrow> pyval \<Rightarrow> error + pyval" where
  "timedelta_radd self other =
     (case as_timedelta other of Some o_us \<Rightarrow> new_delta (o_us + self)
      | None \<Rightarrow> Inr VNotImplemented)"

definition timedelta_sub :: "int \<Rightarrow> pyval \<Rightarrow> error + pyval" where
  "timedelta_sub self other =
     (case as_timedelta other of Some o_us \<Rightarrow> new_delta (self - o_us)
      | None \<Rightarrow> Inr VNotImplemented)"

definition timedelta_mul :: "int \<Rightarrow> pyval \<Rightarrow> error + pyval" where
  "timedelta_mul self other =
     (case other of
        VInt k \<Rightarrow> new_delta (self * k)
      | VFloat f \<Rightarrow> new_delta (round_half_even (of_int self * f))
      | _ \<Rightarrow> Inr VNotImplemented)"

definition timedelta_rmul :: "int \<Rightarrow> pyval \<Rightarrow> error + pyval" where
  "timedelta_rmul self other =
     (case other of
        VInt k \<Rightarrow> new_delta (k * self)
      | VFloat f \<Rightarrow> new_delta (round_half_even (of_int self * f))
      | _ \<Rightarrow> Inr VNotImplemented)"

definition timedelta_floordiv :: "int \<Rightarrow> pyval \<Rightarrow> error + pyval" where
  "timedelta_floordiv self other =
     (case other of
        VInt k \<Rightarrow> if k = 0 then Inl ZeroDivisionError else new_delta (self div k)
      | VTimedelta o_us \<Rightarrow> if o_us = 0 then Inl ZeroDivisionError else Inr (VInt (self div o_us))
      | VDelta o_us \<Rightarrow> if o_us = 0 then Inl ZeroDivisionError else Inr (VInt (self div o_us))
      | _ \<Rightarrow> Inr VNotImplemented)"

definition timedelta_truediv :: "int \<Rightarrow> pyval \<Rightarrow> error + pyval" where
  "timedelta_truediv self other =
     (case other of
        VInt k \<Rightarrow>
          if k = 0 then Inl ZeroDivisionError
          else new_delta (round_half_even (of_int self / of_int k))
      | VFloat f \<Rightarrow>
          if f = 0 then Inl ZeroDivisionError
          else new_delta (round_half_even (of_int self / f))
      | VTimedelta o_us \<Rightarrow>
          if o_us = 0 then Inl ZeroDivisionError
          else Inr (VFloat (to_double (of_int self / of_int o_us)))
      | VDelta o_us \<Rightarrow>
          if o_us = 0 then Inl ZeroDivisionError
          else Inr (VFloat (to_double (of_int self / of_int o_us)))
      | _ \<Rightarrow> Inr VNotImplemented)"

definition timedelta_mod :: "int \<Rightarrow> pyval \<Rightarrow> error + pyval" where
  "timedelta_mod self other =
     (case as_timedelta other of
        Some o_us \<Rightarrow> if o_us = 0 then Inl ZeroDivisionError else new_delta (self mod o_us)
      | None \<Rightarrow> Inr VNotImplemented)"

definition timedelta_divmod :: "int \<Rightarrow> pyval \<Rightarrow> error + pyval" where
  "timedelta_divmod self other =
     (case as_timedelta other of
        Some o_us \<Rightarrow>
          if o_us = 0 then Inl ZeroDivisionError
          else and_then (new_delta (self mod o_us))
                 (\<lambda>r. Inr (VTuple [VInt (self div o_us), r]))
      | None \<Rightarrow> Inr VNotImplemented)"

section \<open>\<open>src/zulu/timedelta.py\<close>: the class \<open>Delta\<close>\<close>

text \<open>\<open>Delta(...)\<close>: the inherited constructor, which builds an instance of the subclass.\<close>

definition Delta_new ::
  "number \<Rightarrow> number \<Rightarrow> number \<Rightarrow> number \<Rightarrow> number \<Rightarrow> number \<Rightarrow> number \<Rightarrow> error + pyval" where
  "Delta_new days seconds microseconds milliseconds minutes hours weeks =
     and_then (timedelta_new days seconds microseconds milliseconds minutes hours weeks)
       (\<lambda>us. Inr (VDelta us))"

text \<open>\<open>Delta.fromtimedelta(delta)\<close> is \<open>cls(seconds=delta.total_seconds())\<close>.\<close>

definition fromtimedelta :: "int \<Rightarrow> error + pyval" where
  "fromtimedelta delta =
     Delta_new (PyInt 0) (PyFloat (total_seconds delta)) (PyInt 0) (PyInt 0) (PyInt 0)
       (PyInt 0) (PyInt 0)"

text \<open>
  The decorator \<open>_asdelta(func)\<close>: a native duration returned by \<open>func\<close> is converted with
  \<open>Delta.fromtimedelta\<close>; in a tuple (the result of \<open>__divmod__\<close>) each item that is a
  native duration is converted and the others are kept; any other result is returned
  as it is.
\<close>

fun asdelta_items :: "pyval list \<Rightarrow> error + pyval list" where
  "asdelta_items [] = Inr []"
| "asdelta_items (item # items) =
     and_then (case as_timedelta item of Some us \<Rightarrow> fromtimedelta us | None \<Rightarrow> Inr item)
       (\<lambda>v. and_then (asdelta_items items) (\<lambda>vs. Inr (v # vs)))"

definition asdelta :: "(int \<Rightarrow> pyval \<Rightarrow> error + pyval) \<Rightarrow> int \<Rightarrow> pyval \<Rightarrow> error + pyval" where
  "asdelta func self other =
     and_then (func self other)
       (\<lambda>result.
          case as_timedelta result of
            Some us \<Rightarrow> fromtimedelta us
          | None \<Rightarrow>
              (case result of
                 VTuple items \<Rightarrow> and_then (asdelta_items items) (\<lambda>vs. Inr (VTuple vs))
               | _ \<Rightarrow> Inr result))"

text \<open>The nine methods that the module replaces by their decorated versions.\<close>

definition Delta_add :: "int \<Rightarrow> pyval \<Rightarrow> error + pyval" where
  "Delta_add = asdelta timedelta_add"

definition Delta_radd :: "int \<Rightarrow> pyval \<Rightarrow> error + pyval" where
  "Delta_radd = asdelta timedelta_radd"

definition Delta_sub :: "int \<Rightarrow> pyval \<Rightarrow> error + pyval" where
  "Delta_sub = asdelta timedelta_sub"

definition Delta_mul :: "int \<Rightarrow> pyval \<Rightarrow> error + pyval" where
  "Delta_mul = asdelta timedelta_mul"

definition Delta_rmul :: "int \<Rightarrow> pyval \<Rightarrow> error + pyval" where
  "Delta_rmul = asdelta timedelta_rmul"

definition Delta_floordiv :: "int \<Rightarrow> pyval \<Rightarrow> error + pyval" where
  "Delta_floordiv = asdelta timedelta_floordiv"

definition Delta_truediv :: "int \<Rightarrow> pyval \<Rightarrow> error + pyval" where
  "Delta_truediv = asdelta timedelta_truediv"

definition Delta_mod :: "int \<Rightarrow> pyval \<Rightarrow> error + pyval" where
  "Delta_mod = asdelta timedelta_mod"

definition Delta_divmod :: "int \<Rightarrow> pyval \<Rightarrow> error + pyval" where
  "Delta_divmod = asdelta timedelta_divmod"

text \<open>
  The class attributes \<open>Delta.min\<close>, \<open>Delta.max\<close> and \<open>Delta.resolution\<close>, assigned once
  when the module is loaded.
\<close>

definition Delta_min :: "error + pyval" where
  "Delta_min =
     Delta_new (PyInt (- 999999999)) (PyInt 0) (PyInt 0) (PyInt 0) (PyInt 0) (PyInt 0) (PyInt 0)"

definition Delta_max :: "error + pyval" where
  "Delta_max =
     Delta_new (PyInt 999999999) (PyInt 59) (PyInt 999999) (PyInt 0) (PyInt 59) (PyInt 23)
       (PyInt 0)"

definition Delta_resolution :: "error + pyval" where
  "Delta_resolution =
     Delta_new (PyInt 0) (PyInt 0) (PyInt 1) (PyInt 0) (PyInt 0) (PyInt 0) (PyInt 0)"

text \<open>The inherited comparison \<open>a < b\<close> of two durations compares their lengths.\<close>

definition timedelta_lt :: "pyval \<Rightarrow> pyval \<Rightarrow> error + bool" where
  "timedelta_lt a b =
     (case (as_timedelta a, as_timedelta b) of
        (Some x, Some y) \<Rightarrow> Inr (x < y)
      | _ \<Rightarrow> Inl TypeError)"

section \<open>\<open>src/zulu/utc.py\<close>: the class \<open>DateTime\<close>\<close>

text \<open>
  The \<open>tzinfo\<close> argument of the constructor is \<open>None\<close>, a string or a \<open>tzinfo\<close> object.
  The optional parameters of \<open>replace\<close> default to the sentinel \<open>Missing\<close>, which is
  \<open>None\<close> of an option type here, so that an explicit \<open>tzinfo=None\<close> is \<open>Some TzNone\<close>.
\<close>

datatype tzarg = TzNone | TzName string | TzObj tzinfo

text \<open>
  What the program takes from its environment: the zone database behind
  \<open>pytz.timezone\<close>, the local zone reported by \<open>tzlocal\<close>, the reading of the clock by
  \<open>datetime.utcnow()\<close>, and the text parser \<open>parse\<close> of \<open>parser.py\<close>, which is not
  among the sources and is taken as a parameter.
\<close>

record host =
  tzdb :: "string \<Rightarrow> zone option"
  local_zone :: tzinfo
  utcnow :: naive
  text_parser :: "string \<Rightarrow> string list option \<Rightarrow> tzarg \<Rightarrow> error + pydatetime"

definition pytz_timezone :: "host \<Rightarrow> string \<Rightarrow> error + tzinfo" where
  "pytz_timezone h name =
     (case tzdb h name of None \<Rightarrow> Inl UnknownTimeZoneError | Some z \<Rightarrow> Inr (Pytz z))"

text \<open>
  Modelled from the spec: \<open>get_timezone\<close> of \<open>parser.py\<close>, which is not among the sources.
  The spec's \<open>resolve_zone(spec)\<close> takes an identifier string, the sentinel \<open>"local"\<close> or
  an already resolved handle, which it passes through; it resolves \<open>"local"\<close> to the
  host's local zone and fails with a timezone-resolution error on an unknown identifier.
  The spec says nothing about \<open>None\<close>, which \<open>astimezone\<close> never passes.
\<close>

definition get_timezone :: "host \<Rightarrow> tzarg \<Rightarrow> error + tzinfo" where
  "get_timezone h tz =
     (case tz of
        TzName name \<Rightarrow> if name = ''local'' then Inr (local_zone h) else pytz_timezone h name
      | TzObj z \<Rightarrow> Inr z
      | TzNone \<Rightarrow> Inl UnknownTimeZoneError)"

text \<open>
  \<open>DateTime.__init__\<close>. A non-empty string is resolved by \<open>pytz.timezone\<close>; the naive
  \<open>datetime\<close> is built; an object with \<open>localize\<close> localizes it with \<open>is_dst=None\<close>, any
  other object (all of them are true) is attached with \<open>replace\<close>, and \<open>None\<close> or the
  empty string means UTC; the result is converted to UTC and stored.
\<close>

definition DateTime_init ::
  "host \<Rightarrow> int \<Rightarrow> int \<Rightarrow> int \<Rightarrow> int \<Rightarrow> int \<Rightarrow> int \<Rightarrow> int \<Rightarrow> tzarg \<Rightarrow> error + DateTime" where
  "DateTime_init h year month day hour minute second microsecond tzinfo =
     and_then (case tzinfo of
                 TzName name \<Rightarrow>
                   if name \<noteq> [] then and_then (pytz_timezone h name) (\<lambda>z. Inr (TzObj z))
                   else Inr tzinfo
               | _ \<Rightarrow> Inr tzinfo)
       (\<lambda>tzinfo.
          and_then (datetime_new year month day hour minute second microsecond)
            (\<lambda>naive.
               and_then (case tzinfo of
                           TzObj (Pytz z) \<Rightarrow> pytz_localize z naive
                         | TzObj (Plain z) \<Rightarrow> Inr (replace_tzinfo naive z)
                         | _ \<Rightarrow> pytz_localize (tz_zone pytz_UTC) naive)
                 (\<lambda>dt. and_then (native_astimezone dt pytz_UTC)
                         (\<lambda>utc. Inr \<lparr>datetime = utc\<rparr>))))"

definition tzarg_of :: "tzinfo option \<Rightarrow> tzarg" where
  "tzarg_of tz = (case tz of None \<Rightarrow> TzNone | Some z \<Rightarrow> TzObj z)"

definition fromdatetime :: "host \<Rightarrow> pydatetime \<Rightarrow> error + DateTime" where
  "fromdatetime h dt =
     DateTime_init h (n_year (dt_naive dt)) (n_month (dt_naive dt)) (n_day (dt_naive dt))
       (n_hour (dt_naive dt)) (n_minute (dt_naive dt)) (n_second (dt_naive dt))
       (n_microsecond (dt_naive dt)) (tzarg_of (dt_tzinfo dt))"

definition now :: "host \<Rightarrow> error + DateTime" where
  "now h = fromdatetime h \<lparr>dt_naive = utcnow h, dt_tzinfo = None, dt_off = 0\<rparr>"

definition parse ::
  "host \<Rightarrow> string \<Rightarrow> string list option \<Rightarrow> tzarg \<Rightarrow> error + DateTime" where
  "parse h obj formats default_tz =
     and_then (text_parser h obj formats default_tz) (fromdatetime h)"

definition fromtimestamp :: "host \<Rightarrow> number \<Rightarrow> error + DateTime" where
  "fromtimestamp h timestamp =
     and_then (datetime_fromtimestamp timestamp pytz_UTC) (fromdatetime h)"

definition fromordinal :: "host \<Rightarrow> int \<Rightarrow> error + DateTime" where
  "fromordinal h ordinal = and_then (datetime_fromordinal ordinal) (fromdatetime h)"

text \<open>
  \<open>combine(date, time)\<close>: an argument with a callable \<open>date\<close> (respectively \<open>time\<close>), that
  is a native instant or a \<open>DateTime\<close>, is replaced by its date (its time of day, without
  zone); then \<open>datetime.combine\<close> joins the two, keeping the \<open>tzinfo\<close> of the time.
\<close>

datatype date_arg = ADate int int int | DDatetime pydatetime | DDateTime DateTime

datatype time_arg = ATime int int int int "tzinfo option" | TDatetime pydatetime | TDateTime DateTime

fun date_of :: "date_arg \<Rightarrow> int \<times> int \<times> int" where
  "date_of (ADate y m d) = (y, m, d)"
| "date_of (DDatetime dt) = (n_year (dt_naive dt), n_month (dt_naive dt), n_day (dt_naive dt))"
| "date_of (DDateTime x) =
     (n_year (dt_naive (datetime x)), n_month (dt_naive (datetime x)),
      n_day (dt_naive (datetime x)))"

fun time_of :: "time_arg \<Rightarrow> int \<times> int \<times> int \<times> int \<times> tzinfo option" where
  "time_of (ATime hh mi s us tz) = (hh, mi, s, us, tz)"
| "time_of (TDatetime dt) =
     (n_hour (dt_naive dt), n_minute (dt_naive dt), n_second (dt_naive dt),
      n_microsecond (dt_naive dt), None)"
| "time_of (TDateTime x) =
     (n_hour (dt_naive (datetime x)), n_minute (dt_naive (datetime x)),
      n_second (dt_naive (datetime x)), n_microsecond (dt_naive (datetime x)), None)"

definition datetime_combine :: "int \<times> int \<times> int \<Rightarrow> int \<times> int \<times> int \<times> int \<times> tzinfo option \<Rightarrow> pydatetime" where
  "datetime_combine date time =
     (case (date, time) of
        ((y, m, d), (hh, mi, s, us, tz)) \<Rightarrow>
          (let n = \<lparr>n_year = y, n_month = m, n_day = d, n_hour = hh, n_minute = mi,
                    n_second = s, n_microsecond = us\<rparr>
           in \<lparr>dt_naive = n, dt_tzinfo = tz,
               dt_off = (case tz of
                           None \<Rightarrow> 0
                         | Some (Pytz z) \<Rightarrow> z_init z
                         | Some (Plain z) \<Rightarrow> wall_utcoffset z (naive_to_us n))\<rparr>))"

definition combine :: "host \<Rightarrow> date_arg \<Rightarrow> time_arg \<Rightarrow> error + DateTime" where
  "combine h date time = fromdatetime h (datetime_combine (date_of date) (time_of time))"

text \<open>The properties read the stored instant.\<close>

definition DateTime_year :: "DateTime \<Rightarrow> int" where
  "DateTime_year self = n_year (dt_naive (datetime self))"

definition DateTime_month :: "DateTime \<Rightarrow> int" where
  "DateTime_month self = n_month (dt_naive (datetime self))"

definition DateTime_day :: "DateTime \<Rightarrow> int" where
  "DateTime_day self = n_day (dt_naive (datetime self))"

definition DateTime_hour :: "DateTime \<Rightarrow> int" where
  "DateTime_hour self = n_hour (dt_naive (datetime self))"

definition DateTime_minute :: "DateTime \<Rightarrow> int" where
  "DateTime_minute self = n_minute (dt_naive (datetime self))"

definition DateTime_second :: "DateTime \<Rightarrow> int" where
  "DateTime_second self = n_second (dt_naive (datetime self))"

definition DateTime_microsecond :: "DateTime \<Rightarrow> int" where
  "DateTime_microsecond self = n_microsecond (dt_naive (datetime self))"

definition DateTime_tzinfo :: "DateTime \<Rightarrow> tzinfo option" where
  "DateTime_tzinfo self = dt_tzinfo (datetime self)"

definition copy :: "host \<Rightarrow> DateTime \<Rightarrow> error + DateTime" where
  "copy h self = fromdatetime h (datetime self)"

definition astimezone :: "host \<Rightarrow> DateTime \<Rightarrow> tzarg \<Rightarrow> error + pydatetime" where
  "astimezone h self tz =
     (let tz = (if tz = TzNone then TzName ''local'' else tz)
      in and_then (get_timezone h tz) (\<lambda>tz. native_astimezone (datetime self) tz))"

definition offset ::
  "host \<Rightarrow> DateTime \<Rightarrow> number \<Rightarrow> number \<Rightarrow> number \<Rightarrow> number \<Rightarrow> number \<Rightarrow> number \<Rightarrow> number
     \<Rightarrow> error + DateTime" where
  "offset h self days seconds microseconds milliseconds minutes hours weeks =
     and_then (timedelta_new days seconds microseconds milliseconds minutes hours weeks)
       (\<lambda>td. and_then (datetime_add (datetime self) td) (fromdatetime h))"

text \<open>\<open>__iter__\<close>: the eight components, in the order of the constructor's parameters.\<close>

definition DateTime_iter ::
  "DateTime \<Rightarrow> int \<times> int \<times> int \<times> int \<times> int \<times> int \<times> int \<times> tzarg" where
  "DateTime_iter self =
     (DateTime_year self, DateTime_month self, DateTime_day self, DateTime_hour self,
      DateTime_minute self, DateTime_second self, DateTime_microsecond self,
      tzarg_of (DateTime_tzinfo self))"

text \<open>
  \<open>replace\<close>: \<open>args = list(self)\<close>, then each parameter that is not \<open>Missing\<close> overwrites
  its position, and the constructor is called with the eight arguments.
\<close>

definition replace_args ::
  "DateTime \<Rightarrow> int option \<Rightarrow> int option \<Rightarrow> int option \<Rightarrow> int option \<Rightarrow> int option
     \<Rightarrow> int option \<Rightarrow> int option \<Rightarrow> tzarg option
     \<Rightarrow> int \<times> int \<times> int \<times> int \<times> int \<times> int \<times> int \<times> tzarg" where
  "replace_args self year month day hour minute second microsecond tzinfo =
     (case DateTime_iter self of
        (a0, a1, a2, a3, a4, a5, a6, a7) \<Rightarrow>
          (case_option a0 id year, case_option a1 id month, case_option a2 id day,
           case_option a3 id hour, case_option a4 id minute, case_option a5 id second,
           case_option a6 id microsecond, case_option a7 id tzinfo))"

definition replace ::
  "host \<Rightarrow> DateTime \<Rightarrow> int option \<Rightarrow> int option \<Rightarrow> int option \<Rightarrow> int option \<Rightarrow> int option
     \<Rightarrow> int option \<Rightarrow> int option \<Rightarrow> tzarg option \<Rightarrow> error + DateTime" where
  "replace h self year month day hour minute second microsecond tzinfo =
     (case replace_args self year month day hour minute second microsecond tzinfo of
        (a0, a1, a2, a3, a4, a5, a6, a7) \<Rightarrow> DateTime_init h a0 a1 a2 a3 a4 a5 a6 a7)"

text \<open>
  Comparison: \<open>_get_comparison_value\<close> unwraps a \<open>DateTime\<close>; the native \<open>==\<close> of two
  aware instants compares the fields under the same \<open>tzinfo\<close> and the UTC instants
  otherwise, and is false for any other operand.
\<close>

definition get_comparison_value :: "pyval \<Rightarrow> pyval" where
  "get_comparison_value other = (case other of VDateTime x \<Rightarrow> VDatetime (datetime x) | _ \<Rightarrow> other)"

definition datetime_eq :: "pydatetime \<Rightarrow> pyval \<Rightarrow> bool" where
  "datetime_eq a other =
     (case other of
        VDatetime b \<Rightarrow>
          (case (dt_tzinfo a, dt_tzinfo b) of
             (None, None) \<Rightarrow> dt_naive a = dt_naive b
           | (Some x, Some y) \<Rightarrow>
               if x = y then dt_naive a = dt_naive b
               else naive_to_us (dt_naive a) - dt_off a = naive_to_us (dt_naive b) - dt_off b
           | _ \<Rightarrow> False)
      | _ \<Rightarrow> False)"

definition DateTime_eq :: "DateTime \<Rightarrow> pyval \<Rightarrow> bool" where
  "DateTime_eq self other = datetime_eq (datetime self) (get_comparison_value other)"

text \<open>
  \<open>__add__\<close> (and \<open>__radd__\<close>, which is the same function): the native addition accepts a
  duration only.
\<close>

definition DateTime_add :: "host \<Rightarrow> DateTime \<Rightarrow> pyval \<Rightarrow> error + DateTime" where
  "DateTime_add h self other =
     and_then (case as_timedelta other of
                 Some td \<Rightarrow> datetime_add (datetime self) td
               | None \<Rightarrow> Inl TypeError)
       (fromdatetime h)"

definition DateTime_radd :: "host \<Rightarrow> DateTime \<Rightarrow> pyval \<Rightarrow> error + DateTime" where
  "DateTime_radd = DateTime_add"

text \<open>
  The native \<open>dt - other\<close>: an instant gives a bare \<open>timedelta\<close>, a duration gives an
  instant, anything else is a \<open>TypeError\<close>.
\<close>

definition datetime_sub :: "pydatetime \<Rightarrow> pyval \<Rightarrow> error + pyval" where
  "datetime_sub a other =
     (case other of
        VDatetime b \<Rightarrow> and_then (datetime_sub_datetime a b) (\<lambda>us. Inr (VTimedelta us))
      | VTimedelta td \<Rightarrow> and_then (datetime_add a (- td)) (\<lambda>r. Inr (VDatetime r))
      | VDelta td \<Rightarrow> and_then (datetime_add a (- td)) (\<lambda>r. Inr (VDatetime r))
      | _ \<Rightarrow> Inl TypeError)"

text \<open>
  \<open>__sub__\<close>: a \<open>DateTime\<close> operand is replaced by its stored instant, a native instant
  by the stored instant of \<open>fromdatetime(other)\<close>; after the native subtraction a result
  that is an instant is wrapped by \<open>fromdatetime\<close>, and any other result is returned as
  it is.
\<close>

definition DateTime_sub :: "host \<Rightarrow> DateTime \<Rightarrow> pyval \<Rightarrow> error + pyval" where
  "DateTime_sub h self other =
     and_then (case other of
                 VDateTime x \<Rightarrow> Inr (VDatetime (datetime x))
               | VDatetime dt \<Rightarrow> and_then (fromdatetime h dt) (\<lambda>x. Inr (VDatetime (datetime x)))
               | _ \<Rightarrow> Inr other)
       (\<lambda>other.
          and_then (datetime_sub (datetime self) other)
            (\<lambda>result.
               case result of
                 VDatetime r \<Rightarrow> and_then (fromdatetime h r) (\<lambda>x. Inr (VDateTime x))
               | _ \<Rightarrow> Inr result))"

text \<open>The module constant \<open>_EPOCH = DateTime(1970, 1, 1)\<close> and \<open>timestamp()\<close>.\<close>

definition EPOCH :: "host \<Rightarrow> error + DateTime" where
  "EPOCH h = DateTime_init h 1970 1 1 0 0 0 0 TzNone"

definition timestamp :: "host \<Rightarrow> DateTime \<Rightarrow> error + rat" where
  "timestamp h self =
     and_then (EPOCH h)
       (\<lambda>epoch.
          and_then (DateTime_sub h self (VDateTime epoch))
            (\<lambda>r. case as_timedelta r of
                    Some us \<Rightarrow> Inr (total_seconds us)
                  | None \<Rightarrow> Inl AttributeError))"

section \<open>Notions used in the statements\<close>

text \<open>
  The state every \<open>DateTime\<close> is in: the fields of the stored instant are a valid date
  and time, its zone is the UTC object of \<open>pytz\<close>, and its offset is zero.
\<close>

definition DateTime_inv :: "DateTime \<Rightarrow> bool" where
  "DateTime_inv x =
     (valid_naive (dt_naive (datetime x)) \<and> dt_tzinfo (datetime x) = Some pytz_UTC
      \<and> dt_off (datetime x) = 0)"

definition stored_in_UTC :: "DateTime \<Rightarrow> bool" where
  "stored_in_UTC x =
     (dt_tzinfo (datetime x) = Some pytz_UTC \<and> dt_off (datetime x) = 0
      \<and> DateTime_tzinfo x = Some pytz_UTC)"

text \<open>The third step of the constructor, after a zone name has been resolved.\<close>

definition localized :: "tzarg \<Rightarrow> naive \<Rightarrow> error + pydatetime" where
  "localized tzinfo n =
     (case tzinfo of
        TzObj (Pytz z) \<Rightarrow> pytz_localize z n
      | TzObj (Plain z) \<Rightarrow> Inr (replace_tzinfo n z)
      | _ \<Rightarrow> pytz_localize (tz_zone pytz_UTC) n)"

section \<open>Properties of the native calendar\<close>

lemma and_then_simps [simp]:
  "and_then (Inl e) f = Inl e" "and_then (Inr x) f = f x"
  by (simp_all add: and_then_def)

lemma and_then_eq_Inr: "and_then m f = Inr y \<longleftrightarrow> (\<exists>x. m = Inr x \<and> f x = Inr y)"
  by (cases m) simp_all

lemma nat_cases12:
  assumes "1 \<le> (m::int)" "m \<le> 12"
  shows "m = 1 \<or> m = 2 \<or> m = 3 \<or> m = 4 \<or> m = 5 \<or> m = 6 \<or> m = 7 \<or> m = 8 \<or> m = 9 \<or> m = 10 \<or> m = 11 \<or> m = 12"
  using assms by arith



lemma md_of_ok:
  assumes "0 \<le> n" "n \<le> 364"
  shows "case md_of lp n of (m, d) \<Rightarrow>
           1 \<le> m \<and> m \<le> 12 \<and> 1 \<le> d
           \<and> d \<le> (if m = 2 \<and> lp then 29 else DAYS_IN_MONTH ! nat m)
           \<and> DAYS_BEFORE_MONTH ! nat m + (if 2 < m \<and> lp then 1 else 0) + d = n + 1"
proof -
  have m: "1 \<le> (n + 50) div 32" "(n + 50) div 32 \<le> 12" using assms by presburger+
  from nat_cases12 [OF m] show ?thesis
  proof (elim disjE)
    assume a: "(n + 50) div 32 = 1"
    then have "-18 \<le> n \<and> n < 14" by presburger
    with a assms show ?thesis
      by (simp add: md_of_def Let_def DAYS_BEFORE_MONTH_def DAYS_IN_MONTH_def)
  next
    assume a: "(n + 50) div 32 = 2"
    then have "14 \<le> n \<and> n < 46" by presburger
    with a assms show ?thesis
      by (simp add: md_of_def Let_def DAYS_BEFORE_MONTH_def DAYS_IN_MONTH_def)
  next
    assume a: "(n + 50) div 32 = 3"
    then have "46 \<le> n \<and> n < 78" by presburger
    with a assms show ?thesis
      by (simp add: md_of_def Let_def DAYS_BEFORE_MONTH_def DAYS_IN_MONTH_def)
  next
    assume a: "(n + 50) div 32 = 4"
    then have "78 \<le> n \<and> n < 110" by presburger
    with a assms show ?thesis
      by (simp add: md_of_def Let_def DAYS_BEFORE_MONTH_def DAYS_IN_MONTH_def)
  next
    assume a: "(n + 50) div 32 = 5"
    then have "110 \<le> n \<and> n < 142" by presburger
    with a assms show ?thesis
      by (simp add: md_of_def Let_def DAYS_BEFORE_MONTH_def DAYS_IN_MONTH_def)
  next
    assume a: "(n + 50) div 32 = 6"
    then have "142 \<le> n \<and> n < 174" by presburger
    with a assms show ?thesis
      by (simp add: md_of_def Let_def DAYS_BEFORE_MONTH_def DAYS_IN_MONTH_def)
  next
    assume a: "(n + 50) div 32 = 7"
    then have "174 \<le> n \<and> n < 206" by presburger
    with a assms show ?thesis
      by (simp add: md_of_def Let_def DAYS_BEFORE_MONTH_def DAYS_IN_MONTH_def)
  next
    assume a: "(n + 50) div 32 = 8"
    then have "206 \<le> n \<and> n < 238" by presburger
    with a assms show ?thesis
      by (simp add: md_of_def Let_def DAYS_BEFORE_MONTH_def DAYS_IN_MONTH_def)
  next
    assume a: "(n + 50) div 32 = 9"
    then have "238 \<le> n \<and> n < 270" by presburger
    with a assms show ?thesis
      by (simp add: md_of_def Let_def DAYS_BEFORE_MONTH_def DAYS_IN_MONTH_def)
  next
    assume a: "(n + 50) div 32 = 10"
    then have "270 \<le> n \<and> n < 302" by presburger
    with a assms show ?thesis
      by (simp add: md_of_def Let_def DAYS_BEFORE_MONTH_def DAYS_IN_MONTH_def)
  next
    assume a: "(n + 50) div 32 = 11"
    then have "302 \<le> n \<and> n < 334" by presburger
    with a assms show ?thesis
      by (simp add: md_of_def Let_def DAYS_BEFORE_MONTH_def DAYS_IN_MONTH_def)
  next
    assume a: "(n + 50) div 32 = 12"
    then have "334 \<le> n \<and> n < 366" by presburger
    with a assms show ?thesis
      by (simp add: md_of_def Let_def DAYS_BEFORE_MONTH_def DAYS_IN_MONTH_def)
  qed
qed





lemma ord2ymd_unfold:
  fixes n :: int
  defines "a \<equiv> n - 1"
  defines "n400 \<equiv> a div 146097" and "r \<equiv> a mod 146097"
  defines "n100 \<equiv> r div 36524" and "r1 \<equiv> r mod 36524"
  defines "n4 \<equiv> r1 div 1461" and "r2 \<equiv> r1 mod 1461"
  defines "n1 \<equiv> r2 div 365" and "r3 \<equiv> r2 mod 365"
  shows "ord2ymd n =
           (if n1 = 4 \<or> n100 = 4 then (n400 * 400 + 1 + n100 * 100 + n4 * 4 + n1 - 1, 12, 31)
            else (n400 * 400 + 1 + n100 * 100 + n4 * 4 + n1,
                  md_of (n1 = 3 \<and> (n4 \<noteq> 24 \<or> n100 = 3)) r3))"
    and "n = 146097 * n400 + 36524 * n100 + 1461 * n4 + 365 * n1 + r3 + 1"
    and "0 \<le> n100 \<and> n100 \<le> 4 \<and> 0 \<le> n4 \<and> n4 \<le> 24 \<and> 0 \<le> n1 \<and> n1 \<le> 4
         \<and> 0 \<le> r3 \<and> r3 \<le> 364"
    and "n100 = 4 \<Longrightarrow> n4 = 0 \<and> n1 = 0 \<and> r3 = 0"
    and "n1 = 4 \<Longrightarrow> r3 = 0"
    and "n4 = 24 \<Longrightarrow> n1 \<le> 3"
proof -
  show "ord2ymd n =
           (if n1 = 4 \<or> n100 = 4 then (n400 * 400 + 1 + n100 * 100 + n4 * 4 + n1 - 1, 12, 31)
            else (n400 * 400 + 1 + n100 * 100 + n4 * 4 + n1,
                  md_of (n1 = 3 \<and> (n4 \<noteq> 24 \<or> n100 = 3)) r3))"
    unfolding ord2ymd_def Let_def a_def n400_def r_def n100_def r1_def n4_def r2_def n1_def r3_def
    by (rule refl)
  have r: "0 \<le> r" "r \<le> 146096" by (simp_all add: r_def zle_diff1_eq [symmetric])
  have r1: "0 \<le> r1" "r1 \<le> 36523" by (simp_all add: r1_def zle_diff1_eq [symmetric])
  have r2: "0 \<le> r2" "r2 \<le> 1460" by (simp_all add: r2_def zle_diff1_eq [symmetric])
  have r3: "0 \<le> r3" "r3 \<le> 364" by (simp_all add: r3_def zle_diff1_eq [symmetric])
  have e0: "a = 146097 * n400 + r" by (simp add: n400_def r_def)
  have e1: "r = 36524 * n100 + r1" by (simp add: n100_def r1_def)
  have e2: "r1 = 1461 * n4 + r2" by (simp add: n4_def r2_def)
  have e3: "r2 = 365 * n1 + r3" by (simp add: n1_def r3_def)
  show "n = 146097 * n400 + 36524 * n100 + 1461 * n4 + 365 * n1 + r3 + 1"
    using e0 e1 e2 e3 by (simp add: a_def)
  have n100: "0 \<le> n100" "n100 \<le> 4"
    using r zdiv_mono1 [of r 146096 36524] by (simp_all add: n100_def pos_imp_zdiv_nonneg_iff)
  have n4: "0 \<le> n4" "n4 \<le> 24"
    using r1 zdiv_mono1 [of r1 36523 1461] by (simp_all add: n4_def pos_imp_zdiv_nonneg_iff)
  have n1: "0 \<le> n1" "n1 \<le> 4"
    using r2 zdiv_mono1 [of r2 1460 365] by (simp_all add: n1_def pos_imp_zdiv_nonneg_iff)
  show "0 \<le> n100 \<and> n100 \<le> 4 \<and> 0 \<le> n4 \<and> n4 \<le> 24 \<and> 0 \<le> n1 \<and> n1 \<le> 4
         \<and> 0 \<le> r3 \<and> r3 \<le> 364"
    using n100 n4 n1 r3 by simp
  show "n100 = 4 \<Longrightarrow> n4 = 0 \<and> n1 = 0 \<and> r3 = 0"
    using r r1 r2 r3 e1 e2 e3 n4 n1 by arith
  show "n1 = 4 \<Longrightarrow> r3 = 0" using r2 r3 e3 by arith
  show "n4 = 24 \<Longrightarrow> n1 \<le> 3" using r1 r2 r3 e2 e3 by arith
qed

lemma year_parts:
  fixes n400 n100 n4 n1 :: int
  assumes b: "0 \<le> n100" "n100 \<le> 3" "0 \<le> n4" "n4 \<le> 24" "0 \<le> n1" "n1 \<le> 3"
  defines "y \<equiv> n400 * 400 + 1 + n100 * 100 + n4 * 4 + n1"
  shows "days_before_year y = 146097 * n400 + 36524 * n100 + 1461 * n4 + 365 * n1"
    and "is_leap y \<longleftrightarrow> (n1 = 3 \<and> (n4 \<noteq> 24 \<or> n100 = 3))"
proof -
  define z where "z = y - 1"
  have y1: "z = n400 * 400 + n100 * 100 + n4 * 4 + n1" by (simp add: z_def y_def)
  have d4: "z div 4 = 100 * n400 + 25 * n100 + n4"
    by (rule int_div_pos_eq [where r = n1]) (use b y1 in simp_all)
  have d100: "z div 100 = 4 * n400 + n100"
    by (rule int_div_pos_eq [where r = "4 * n4 + n1"]) (use b y1 in simp_all)
  have d400: "z div 400 = n400"
    by (rule int_div_pos_eq [where r = "100 * n100 + 4 * n4 + n1"]) (use b y1 in simp_all)
  have "days_before_year y = z * 365 + z div 4 - z div 100 + z div 400"
    by (simp add: days_before_year_def Let_def z_def)
  then have "days_before_year y = z * 365 + (100 * n400 + 25 * n100 + n4) - (4 * n400 + n100) + n400"
    by (simp only: d4 d100 d400)
  then show "days_before_year y = 146097 * n400 + 36524 * n100 + 1461 * n4 + 365 * n1"
    by (simp add: y1)
  define p4 p100 p400 where "p4 = (y mod 4 = 0)" and "p100 = (y mod 100 = 0)"
    and "p400 = (y mod 400 = 0)"
  have leap: "is_leap y = (p4 \<and> (\<not> p100 \<or> p400))"
    by (simp add: is_leap_def p4_def p100_def p400_def)
  have yy: "y = n400 * 400 + 1 + n100 * 100 + n4 * 4 + n1" by (simp add: y_def)
  have m4: "y mod 4 = (if n1 = 3 then 0 else n1 + 1)"
  proof (cases "n1 = 3")
    case True
    have "y mod 4 = 0"
      by (rule int_mod_pos_eq [where q = "100 * n400 + 25 * n100 + n4 + 1"])
         (use True yy in simp_all)
    with True show ?thesis by simp
  next
    case False
    have "y mod 4 = n1 + 1"
      by (rule int_mod_pos_eq [where q = "100 * n400 + 25 * n100 + n4"])
         (use False b yy in \<open>(simp; fail) | arith\<close>)+
    with False show ?thesis by simp
  qed
  have m100: "y mod 100 = (if n1 = 3 \<and> n4 = 24 then 0 else 4 * n4 + n1 + 1)"
  proof (cases "n1 = 3 \<and> n4 = 24")
    case True
    have "y mod 100 = 0"
      by (rule int_mod_pos_eq [where q = "4 * n400 + n100 + 1"]) (use True yy in simp_all)
    with True show ?thesis by simp
  next
    case False
    have "y mod 100 = 4 * n4 + n1 + 1"
      by (rule int_mod_pos_eq [where q = "4 * n400 + n100"]) (use False b yy in \<open>(simp; fail) | arith\<close>)+
    with False show ?thesis by simp
  qed
  have m400: "y mod 400 = (if n1 = 3 \<and> n4 = 24 \<and> n100 = 3 then 0
                           else 100 * n100 + 4 * n4 + n1 + 1)"
  proof (cases "n1 = 3 \<and> n4 = 24 \<and> n100 = 3")
    case True
    have "y mod 400 = 0"
      by (rule int_mod_pos_eq [where q = "n400 + 1"]) (use True yy in simp_all)
    with True show ?thesis by simp
  next
    case False
    have "y mod 400 = 100 * n100 + 4 * n4 + n1 + 1"
      by (rule int_mod_pos_eq [where q = "n400"]) (use False b yy in \<open>(simp; fail) | arith\<close>)+
    with False show ?thesis by simp
  qed
  have p4: "p4 = (n1 = 3)" unfolding p4_def m4 using b by auto
  have p100: "p100 = (n1 = 3 \<and> n4 = 24)" unfolding p100_def m100 using b by auto
  have p400: "p400 = (n1 = 3 \<and> n4 = 24 \<and> n100 = 3)" unfolding p400_def m400 using b by auto
  show "is_leap y \<longleftrightarrow> (n1 = 3 \<and> (n4 \<noteq> 24 \<or> n100 = 3))"
    unfolding leap p4 p100 p400 by blast
qed

lemma div_pred:
  fixes y k :: int
  assumes "0 < k"
  shows "y div k = (y - 1) div k + (if y mod k = 0 then 1 else 0)"
proof (cases "y mod k = 0")
  case True
  have "k * (y div k) + y mod k = y" by simp
  with True have y: "k * (y div k) = y" by simp
  have "(y - 1) div k = y div k - 1"
    by (rule int_div_pos_eq [where r = "k - 1"])
       (use assms y in \<open>simp_all add: right_diff_distrib\<close>)
  with True show ?thesis by simp
next
  case False
  have r: "0 \<le> y mod k" "y mod k < k" using assms by simp_all
  have "k * (y div k) + y mod k = y" by simp
  then have "y - 1 = k * (y div k) + (y mod k - 1)" by linarith
  then have "(y - 1) div k = y div k"
    by (rule int_div_pos_eq) (use r False in \<open>simp_all\<close>)
  with False show ?thesis by simp
qed



lemma days_before_year_Suc:
  "days_before_year (y + 1) = days_before_year y + 365 + (if is_leap y then 1 else 0)"
proof -
  define p4 p100 p400 where "p4 = (y mod 4 = 0)" and "p100 = (y mod 100 = 0)"
    and "p400 = (y mod 400 = 0)"
  define q4 q100 q400 where "q4 = (y - 1) div 4" and "q100 = (y - 1) div 100"
    and "q400 = (y - 1) div 400"
  have a: "y div 4 = q4 + (if p4 then 1 else 0)"
    using div_pred [of 4 y] by (simp add: p4_def q4_def)
  have b: "y div 100 = q100 + (if p100 then 1 else 0)"
    using div_pred [of 100 y] by (simp add: p100_def q100_def)
  have c: "y div 400 = q400 + (if p400 then 1 else 0)"
    using div_pred [of 400 y] by (simp add: p400_def q400_def)
  have d: "p400 \<Longrightarrow> p100"
    using dvd_trans [of 100 400 y] by (simp add: p400_def p100_def mod_eq_0_iff_dvd)
  have e: "p100 \<Longrightarrow> p4"
    using dvd_trans [of 4 100 y] by (simp add: p100_def p4_def mod_eq_0_iff_dvd)
  have l: "days_before_year (y + 1) = y * 365 + y div 4 - y div 100 + y div 400"
    by (simp add: days_before_year_def)
  have r: "days_before_year y = (y - 1) * 365 + q4 - q100 + q400"
    by (simp add: days_before_year_def Let_def q4_def q100_def q400_def)
  have leap: "is_leap y = (p4 \<and> (\<not> p100 \<or> p400))"
    by (simp add: is_leap_def p4_def p100_def p400_def)
  show ?thesis
    unfolding l r leap a b c using d e
    by (cases p4; cases p100; cases p400; simp add: left_diff_distrib)
qed

lemma days_before_year_mono: "y \<le> y' \<Longrightarrow> days_before_year y \<le> days_before_year y'"
proof (induction y' rule: int_ge_induct)
  case base
  show ?case by simp
next
  case (step i)
  then show ?case using days_before_year_Suc [of i] by (simp split: if_splits)
qed

lemma ord2ymd_ok:
  "case ord2ymd n of (y, m, d) \<Rightarrow> ymd2ord y m d = n \<and> valid_date y m d"
proof -
  define a where "a = n - 1"
  define n400 r where "n400 = a div 146097" and "r = a mod 146097"
  define n100 r1 where "n100 = r div 36524" and "r1 = r mod 36524"
  define n4 r2 where "n4 = r1 div 1461" and "r2 = r1 mod 1461"
  define n1 r3 where "n1 = r2 div 365" and "r3 = r2 mod 365"
  note u = ord2ymd_unfold [of n, folded a_def, folded n400_def r_def, folded n100_def r1_def,
      folded n4_def r2_def, folded n1_def r3_def]
  note eq = u(1) and n = u(2) and bnd = u(3) and c100 = u(4) and c1 = u(5) and c24 = u(6)
  show ?thesis
  proof (cases "n100 = 4")
    case True
    with c100 have z: "n4 = 0" "n1 = 0" "r3 = 0" by simp_all
    define y where "y = n400 * 400 + 400"
    have y: "n400 * 400 + 1 + 3 * 100 + 24 * 4 + 3 = y" by (simp add: y_def)
    from year_parts [of 3 24 3 n400] have
      "days_before_year y = 146097 * n400 + 145731" "is_leap y"
      unfolding y by simp_all
    moreover have "ord2ymd n = (y, 12, 31)" using True z by (simp add: eq y_def)
    ultimately show ?thesis using True z n
      by (simp add: ymd2ord_def valid_date_def days_before_month_def days_in_month_def
          DAYS_BEFORE_MONTH_def DAYS_IN_MONTH_def)
  next
    case F100: False
    show ?thesis
    proof (cases "n1 = 4")
      case True
      with c1 c24 bnd have z: "r3 = 0" "n4 \<le> 23" by (simp, arith)
      define y where "y = n400 * 400 + n100 * 100 + n4 * 4 + 4"
      have y: "n400 * 400 + 1 + n100 * 100 + n4 * 4 + 3 = y" by (simp add: y_def)
      from bnd F100 z have b: "0 \<le> n100" "n100 \<le> 3" "0 \<le> n4" "n4 \<le> 24" by simp_all
      from year_parts [OF b, of 3 n400] z have
        "days_before_year y = 146097 * n400 + 36524 * n100 + 1461 * n4 + 1095" "is_leap y"
        unfolding y by simp_all
      moreover have "ord2ymd n = (y, 12, 31)" using True F100 by (simp add: eq y_def)
      ultimately show ?thesis using True z n
        by (simp add: ymd2ord_def valid_date_def days_before_month_def days_in_month_def
            DAYS_BEFORE_MONTH_def DAYS_IN_MONTH_def)
    next
      case False
      define lp where "lp = (n1 = 3 \<and> (n4 \<noteq> 24 \<or> n100 = 3))"
      define y where "y = n400 * 400 + 1 + n100 * 100 + n4 * 4 + n1"
      from bnd F100 False have b: "0 \<le> n100" "n100 \<le> 3" "0 \<le> n4" "n4 \<le> 24" "0 \<le> n1" "n1 \<le> 3"
        by simp_all
      from year_parts [OF b, of n400] have
        dby: "days_before_year y = 146097 * n400 + 36524 * n100 + 1461 * n4 + 365 * n1"
        and leap: "is_leap y = lp" by (simp_all add: y_def lp_def)
      obtain m d where md: "md_of lp r3 = (m, d)" by (cases "md_of lp r3")
      from md_of_ok [of r3 lp] bnd md have
        m: "1 \<le> m" "m \<le> 12" "1 \<le> d"
        and dd: "d \<le> (if m = 2 \<and> lp then 29 else DAYS_IN_MONTH ! nat m)"
        and s: "DAYS_BEFORE_MONTH ! nat m + (if 2 < m \<and> lp then 1 else 0) + d = r3 + 1"
        by simp_all
      have res: "ord2ymd n = (y, m, d)"
        using F100 False md by (simp add: eq y_def lp_def)
      have "ymd2ord y m d = n"
        using dby s n by (simp add: ymd2ord_def days_before_month_def leap)
      moreover have "valid_date y m d"
        using m dd by (simp add: valid_date_def days_in_month_def leap)
      ultimately show ?thesis by (simp add: res)
    qed
  qed
qed

lemma days_in_month_vals:
  "days_in_month y 1 = 31" "days_in_month y 2 = (if is_leap y then 29 else 28)"
  "days_in_month y 3 = 31" "days_in_month y 4 = 30" "days_in_month y 5 = 31"
  "days_in_month y 6 = 30" "days_in_month y 7 = 31" "days_in_month y 8 = 31"
  "days_in_month y 9 = 30" "days_in_month y 10 = 31" "days_in_month y 11 = 30"
  "days_in_month y 12 = 31"
  by (simp_all add: days_in_month_def DAYS_IN_MONTH_def)

lemma days_before_month_vals:
  "days_before_month y 1 = 0" "days_before_month y 2 = 31"
  "days_before_month y 3 = 59 + (if is_leap y then 1 else 0)"
  "days_before_month y 4 = 90 + (if is_leap y then 1 else 0)"
  "days_before_month y 5 = 120 + (if is_leap y then 1 else 0)"
  "days_before_month y 6 = 151 + (if is_leap y then 1 else 0)"
  "days_before_month y 7 = 181 + (if is_leap y then 1 else 0)"
  "days_before_month y 8 = 212 + (if is_leap y then 1 else 0)"
  "days_before_month y 9 = 243 + (if is_leap y then 1 else 0)"
  "days_before_month y 10 = 273 + (if is_leap y then 1 else 0)"
  "days_before_month y 11 = 304 + (if is_leap y then 1 else 0)"
  "days_before_month y 12 = 334 + (if is_leap y then 1 else 0)"
  by (simp_all add: days_before_month_def DAYS_BEFORE_MONTH_def)

lemma days_before_month_Suc:
  assumes "1 \<le> m" "m \<le> 11"
  shows "days_before_month y (m + 1) = days_before_month y m + days_in_month y m"
proof -
  from assms have "1 \<le> m" "m \<le> 12" by simp_all
  from nat_cases12 [OF this] assms(2) show ?thesis
    by (elim disjE) (simp_all add: days_in_month_vals days_before_month_vals)
qed

lemma days_in_month_pos:
  assumes "1 \<le> m" "m \<le> 12"
  shows "28 \<le> days_in_month y m"
  using nat_cases12 [OF assms] by (elim disjE) (simp_all add: days_in_month_vals)

lemma days_before_month_mono:
  assumes "1 \<le> a" "a \<le> b" "b \<le> 12"
  shows "days_before_month y a \<le> days_before_month y b"
proof -
  have "b \<le> 12 \<longrightarrow> days_before_month y a \<le> days_before_month y b"
    using assms(2)
  proof (induction b rule: int_ge_induct)
    case base
    show ?case by simp
  next
    case (step i)
    show ?case
    proof
      assume "i + 1 \<le> 12"
      with step assms(1) have i: "1 \<le> i" "i \<le> 11" "i \<le> 12" by simp_all
      from days_before_month_Suc [OF i(1,2)] days_in_month_pos [OF i(1,3), of y] step i
      show "days_before_month y a \<le> days_before_month y (i + 1)" by simp
    qed
  qed
  with assms(3) show ?thesis by simp
qed

lemma month_day_bounds:
  assumes "valid_date y m d"
  shows "1 \<le> days_before_month y m + d"
    and "days_before_month y m + d \<le> 365 + (if is_leap y then 1 else 0)"
proof -
  from assms have m: "1 \<le> m" "m \<le> 12" and d: "1 \<le> d" "d \<le> days_in_month y m"
    by (simp_all add: valid_date_def)
  from days_before_month_mono [of 1 m y] m d show "1 \<le> days_before_month y m + d"
    by (simp add: days_before_month_vals)
  show "days_before_month y m + d \<le> 365 + (if is_leap y then 1 else 0)"
  proof (cases "m = 12")
    case True
    with d show ?thesis by (simp add: days_in_month_vals days_before_month_vals)
  next
    case False
    with m have m11: "m \<le> 11" by simp
    from days_before_month_Suc [OF m(1) m11, of y] days_before_month_mono [of "m + 1" 12 y] m m11 d
    show ?thesis by (simp add: days_before_month_vals)
  qed
qed

lemma month_day_inj:
  assumes "valid_date y m d" "valid_date y m' d'"
    and "days_before_month y m + d = days_before_month y m' + d'"
  shows "m = m' \<and> d = d'"
proof -
  have less: "days_before_month y a + da < days_before_month y b + db"
    if "valid_date y a da" "valid_date y b db" "a < b" for a b da db
  proof -
    from that have a: "1 \<le> a" "a \<le> 11" "da \<le> days_in_month y a" and b: "b \<le> 12" "1 \<le> db"
      by (simp_all add: valid_date_def)
    have "days_before_month y a + da \<le> days_before_month y (a + 1)"
      using days_before_month_Suc [OF a(1,2), of y] a(3) by simp
    also have "\<dots> \<le> days_before_month y b"
      using a b that(3) by (intro days_before_month_mono) simp_all
    also have "\<dots> < days_before_month y b + db" using b by simp
    finally show ?thesis .
  qed
  have "m = m'"
  proof (rule ccontr)
    assume "m \<noteq> m'"
    then consider "m < m'" | "m' < m" by linarith
    then show False
      using less [of m d m' d'] less [of m' d' m d] assms by cases simp_all
  qed
  with assms(3) show ?thesis by simp
qed

lemma ymd2ord_inj:
  assumes v: "valid_date y m d" "valid_date y' m' d'"
    and e: "ymd2ord y m d = ymd2ord y' m' d'"
  shows "y = y' \<and> m = m' \<and> d = d'"
proof -
  have less: "ymd2ord a ma da < ymd2ord b mb db"
    if "valid_date a ma da" "valid_date b mb db" "a < b" for a b ma mb da db
  proof -
    have "ymd2ord a ma da \<le> days_before_year (a + 1)"
      using month_day_bounds(2) [OF that(1)] days_before_year_Suc [of a]
      by (simp add: ymd2ord_def split: if_splits)
    also have "\<dots> \<le> days_before_year b"
      using that(3) by (intro days_before_year_mono) simp
    also have "\<dots> < ymd2ord b mb db"
      using month_day_bounds(1) [OF that(2)] by (simp add: ymd2ord_def)
    finally show ?thesis .
  qed
  have "y = y'"
  proof (rule ccontr)
    assume "y \<noteq> y'"
    then consider "y < y'" | "y' < y" by linarith
    then show False
      using less [of y m d y' m' d'] less [of y' m' d' y m d] v e by cases simp_all
  qed
  with v e month_day_inj [of y m d m' d'] show ?thesis by (simp add: ymd2ord_def)
qed

lemma ord2ymd_ymd2ord:
  assumes "valid_date y m d"
  shows "ord2ymd (ymd2ord y m d) = (y, m, d)"
proof -
  obtain y' m' d' where r: "ord2ymd (ymd2ord y m d) = (y', m', d')"
    by (cases "ord2ymd (ymd2ord y m d)") auto
  from ord2ymd_ok [of "ymd2ord y m d"] r
  have "ymd2ord y' m' d' = ymd2ord y m d" "valid_date y' m' d'" by simp_all
  with ymd2ord_inj [of y' m' d' y m d] assms r show ?thesis by simp
qed

subsection \<open>Instants as microseconds\<close>

lemma days_before_year_1: "days_before_year 1 = 0"
  by (simp add: days_before_year_def)

lemma days_before_year_10000: "days_before_year 10000 = 3652059"
  by (simp add: days_before_year_def)

lemma ymd2ord_bounds:
  assumes "1 \<le> y" "y \<le> 9999" "valid_date y m d"
  shows "1 \<le> ymd2ord y m d" "ymd2ord y m d \<le> MAXORDINAL"
proof -
  from days_before_year_mono [of 1 y] assms(1) have "0 \<le> days_before_year y"
    by (simp add: days_before_year_1)
  with month_day_bounds(1) [OF assms(3)] show "1 \<le> ymd2ord y m d"
    by (simp add: ymd2ord_def)
  have "ymd2ord y m d \<le> days_before_year (y + 1)"
    using month_day_bounds(2) [OF assms(3)] days_before_year_Suc [of y]
    by (simp add: ymd2ord_def split: if_splits)
  also have "\<dots> \<le> days_before_year 10000"
    using assms(2) by (intro days_before_year_mono) simp
  finally show "ymd2ord y m d \<le> MAXORDINAL"
    by (simp add: days_before_year_10000 MAXORDINAL_def)
qed

lemma ord2ymd_year_range:
  assumes "1 \<le> n" "n \<le> MAXORDINAL" "ord2ymd n = (y, m, d)"
  shows "1 \<le> y \<and> y \<le> 9999"
proof -
  from ord2ymd_ok [of n] assms(3) have e: "ymd2ord y m d = n" and v: "valid_date y m d"
    by simp_all
  have "1 \<le> y"
  proof (rule ccontr)
    assume "\<not> 1 \<le> y"
    then have "y + 1 \<le> 1" by simp
    from days_before_year_mono [OF this] have "days_before_year (y + 1) \<le> 0"
      by (simp add: days_before_year_1)
    moreover have "ymd2ord y m d \<le> days_before_year (y + 1)"
      using month_day_bounds(2) [OF v] days_before_year_Suc [of y]
      by (simp add: ymd2ord_def split: if_splits)
    ultimately show False using e assms(1) by simp
  qed
  moreover have "y \<le> 9999"
  proof (rule ccontr)
    assume "\<not> y \<le> 9999"
    then have "10000 \<le> y" by simp
    from days_before_year_mono [OF this] have "3652059 \<le> days_before_year y"
      by (simp add: days_before_year_10000)
    with month_day_bounds(1) [OF v] e assms(2) show False
      by (simp add: ymd2ord_def MAXORDINAL_def)
  qed
  ultimately show ?thesis by simp
qed

text \<open>The time of day, packed into microseconds and unpacked.\<close>

lemma time_unpack:
  fixes hh mi s us :: int
  assumes "0 \<le> hh" "hh \<le> 23" "0 \<le> mi" "mi \<le> 59" "0 \<le> s" "s \<le> 59" "0 \<le> us" "us \<le> 999999"
  defines "t \<equiv> ((hh * 60 + mi) * 60 + s) * 1000000 + us"
  shows "0 \<le> t" "t < us_per_day"
    and "t mod 1000000 = us"
    and "(t div 1000000) div 3600 = hh"
    and "((t div 1000000) mod 3600) div 60 = mi"
    and "(t div 1000000) mod 60 = s"
proof -
  define secs where "secs = (hh * 60 + mi) * 60 + s"
  have t: "t = 1000000 * secs + us" by (simp add: t_def secs_def)
  from assms(1-8) have secs: "0 \<le> secs" "secs \<le> 86399" by (simp_all add: secs_def)
  show "0 \<le> t" "t < us_per_day" using secs assms(7,8) by (simp_all add: t us_per_day_def)
  show "t mod 1000000 = us" by (rule int_mod_pos_eq [OF t]) (use assms in simp_all)
  have d: "t div 1000000 = secs" by (rule int_div_pos_eq [OF t]) (use assms in simp_all)
  have s1: "secs = 3600 * hh + (mi * 60 + s)" by (simp add: secs_def)
  have s2: "secs = 60 * (hh * 60 + mi) + s" by (simp add: secs_def)
  have m1: "mi * 60 + s = 60 * mi + s" by simp
  show "(t div 1000000) div 3600 = hh"
    unfolding d by (rule int_div_pos_eq [OF s1]) (use assms in simp_all)
  have "secs mod 3600 = mi * 60 + s"
    by (rule int_mod_pos_eq [OF s1]) (use assms in simp_all)
  then show "((t div 1000000) mod 3600) div 60 = mi"
    unfolding d using int_div_pos_eq [OF m1, of ] assms by simp
  show "(t div 1000000) mod 60 = s"
    unfolding d by (rule int_mod_pos_eq [OF s2]) (use assms in simp_all)
qed

lemma naive_to_us_split:
  assumes "valid_naive n"
  shows "naive_to_us n div us_per_day = ymd2ord (n_year n) (n_month n) (n_day n)"
    and "naive_to_us n mod us_per_day
           = ((n_hour n * 60 + n_minute n) * 60 + n_second n) * 1000000 + n_microsecond n"
proof -
  define t where "t = ((n_hour n * 60 + n_minute n) * 60 + n_second n) * 1000000 + n_microsecond n"
  from assms have b: "0 \<le> t" "t < us_per_day"
    using time_unpack(1,2) [of "n_hour n" "n_minute n" "n_second n" "n_microsecond n"]
    by (simp_all add: valid_naive_def t_def)
  have e: "naive_to_us n = us_per_day * ymd2ord (n_year n) (n_month n) (n_day n) + t"
    by (simp add: naive_to_us_def t_def)
  show "naive_to_us n div us_per_day = ymd2ord (n_year n) (n_month n) (n_day n)"
    by (rule int_div_pos_eq [OF e b])
  show "naive_to_us n mod us_per_day
           = ((n_hour n * 60 + n_minute n) * 60 + n_second n) * 1000000 + n_microsecond n"
    using int_mod_pos_eq [OF e b] by (simp add: t_def)
qed

lemma naive_of_us_to_us:
  assumes "valid_naive n"
  shows "naive_of_us (naive_to_us n) = Inr n"
proof -
  define t where "t = ((n_hour n * 60 + n_minute n) * 60 + n_second n) * 1000000 + n_microsecond n"
  define k where "k = ymd2ord (n_year n) (n_month n) (n_day n)"
  from assms have v: "valid_date (n_year n) (n_month n) (n_day n)"
    and y: "1 \<le> n_year n" "n_year n \<le> 9999" by (simp_all add: valid_naive_def)
  from ymd2ord_bounds [OF y v] have ob: "1 \<le> k \<and> k \<le> MAXORDINAL" by (simp add: k_def)
  note sp = naive_to_us_split [OF assms, folded t_def k_def]
  from assms have b: "0 \<le> n_hour n" "n_hour n \<le> 23" "0 \<le> n_minute n" "n_minute n \<le> 59"
    "0 \<le> n_second n" "n_second n \<le> 59" "0 \<le> n_microsecond n" "n_microsecond n \<le> 999999"
    by (simp_all only: valid_naive_def)
  note tu = time_unpack(3-6) [OF b, folded t_def]
  have o: "ord2ymd k = (n_year n, n_month n, n_day n)"
    unfolding k_def by (rule ord2ymd_ymd2ord [OF v])
  have "naive_of_us (naive_to_us n)
          = Inr \<lparr>n_year = n_year n, n_month = n_month n, n_day = n_day n, n_hour = n_hour n,
                 n_minute = n_minute n, n_second = n_second n,
                 n_microsecond = n_microsecond n\<rparr>"
    unfolding naive_of_us_def Let_def sp tu o using ob by simp
  then show ?thesis by simp
qed

lemma us_per_day_pos: "0 < us_per_day"
  by (simp add: us_per_day_def)

lemma naive_of_us_Inr:
  assumes "naive_of_us x = Inr n"
  shows "naive_to_us n = x" and "valid_naive n"
proof -
  define k t where "k = x div us_per_day" and "t = x mod us_per_day"
  define secs e' where "secs = t div 1000000" and "e' = t mod 1000000"
  define a r1 where "a = secs div 3600" and "r1 = secs mod 3600"
  define b c where "b = r1 div 60" and "c = secs mod 60"
  obtain y m d where o: "ord2ymd k = (y, m, d)" by (cases "ord2ymd k") auto
  have kb: "1 \<le> k \<and> k \<le> MAXORDINAL"
  proof (rule ccontr)
    assume "\<not> (1 \<le> k \<and> k \<le> MAXORDINAL)"
    then have "naive_of_us x = Inl OverflowError"
      unfolding naive_of_us_def Let_def k_def [symmetric] by (simp only: if_False)
    with assms show False by simp
  qed
  then have "naive_of_us x = Inr \<lparr>n_year = y, n_month = m, n_day = d, n_hour = a,
      n_minute = b, n_second = c, n_microsecond = e'\<rparr>"
    unfolding naive_of_us_def Let_def k_def [symmetric] t_def [symmetric] secs_def [symmetric]
      e'_def [symmetric] a_def [symmetric] r1_def [symmetric] b_def [symmetric] c_def [symmetric]
    by (simp add: o)
  with assms have n: "n = \<lparr>n_year = y, n_month = m, n_day = d, n_hour = a,
      n_minute = b, n_second = c, n_microsecond = e'\<rparr>" by simp
  from ord2ymd_ok [of k] o have e: "ymd2ord y m d = k" and v: "valid_date y m d" by simp_all
  from kb ord2ymd_year_range [OF _ _ o] have yr: "1 \<le> y" "y \<le> 9999" by simp_all
  have t: "0 \<le> t" "t < us_per_day"
    unfolding t_def using us_per_day_pos by (rule pos_mod_sign pos_mod_bound)+
  have "t div 1000000 \<le> 86399999999 div 1000000"
    by (rule zdiv_mono1) (use t in \<open>simp_all add: us_per_day_def\<close>)
  then have s_hi: "secs \<le> 86399" by (simp add: secs_def)
  have s_lo: "0 \<le> secs" unfolding secs_def using t(1) by (simp add: pos_imp_zdiv_nonneg_iff)
  have "secs div 3600 \<le> 86399 div 3600" by (rule zdiv_mono1) (use s_hi in simp_all)
  then have a_hi: "a \<le> 23" by (simp add: a_def)
  have a_lo: "0 \<le> a" unfolding a_def using s_lo by (simp add: pos_imp_zdiv_nonneg_iff)
  have r1: "0 \<le> r1" "r1 < 3600" unfolding r1_def by (rule pos_mod_sign pos_mod_bound, simp)+
  have "r1 div 60 \<le> 3599 div 60" by (rule zdiv_mono1) (use r1 in simp_all)
  then have b_hi: "b \<le> 59" by (simp add: b_def)
  have b_lo: "0 \<le> b" unfolding b_def using r1(1) by (simp add: pos_imp_zdiv_nonneg_iff)
  have c: "0 \<le> c" "c < 60" unfolding c_def by (rule pos_mod_sign pos_mod_bound, simp)+
  have e': "0 \<le> e'" "e' < 1000000" unfolding e'_def by (rule pos_mod_sign pos_mod_bound, simp)+
  show "valid_naive n"
    unfolding n valid_naive_def using yr v a_lo a_hi b_lo b_hi c e' by simp
  have x: "x = us_per_day * k + t" unfolding k_def t_def by simp
  have t2: "t = 1000000 * secs + e'" unfolding secs_def e'_def by simp
  have s2: "secs = 3600 * a + r1" unfolding a_def r1_def by simp
  have "r1 mod 60 = c" unfolding r1_def c_def by (simp add: mod_mod_cancel)
  then have s3: "r1 = 60 * b + c" unfolding b_def by (metis mult_div_mod_eq)
  have "((a * 60 + b) * 60 + c) * 1000000 + e' = t"
    unfolding t2 s2 s3 by (simp add: algebra_simps)
  then show "naive_to_us n = x"
    unfolding n naive_to_us_def x by (simp add: e)
qed

section \<open>Properties of \<open>Delta\<close>\<close>

lemma timedelta_new_ints:
  "timedelta_new (PyInt d) (PyInt s) (PyInt u) (PyInt ms) (PyInt mi) (PyInt h) (PyInt w) =
     microseconds_to_delta
       (u + ms * 1000 + s * 1000000 + mi * 60000000 + h * 3600000000 + d * us_per_day
          + w * (7 * us_per_day))"
  by (simp add: timedelta_new_def round_half_even_def)

text \<open>
  Claim C8. The three class constants are \<open>Delta\<close> instances holding the bounds of the
  native duration type: \<open>Delta.min\<close> is the most negative and \<open>Delta.max\<close> the largest
  duration the host accepts (one microsecond beyond either is rejected),
  \<open>Delta.min < Delta(0) < Delta.max\<close>, and \<open>Delta.resolution\<close> is exactly one microsecond.
\<close>

theorem Delta_constants:
  "Delta_min = Inr (VDelta timedelta_min)
   \<and> Delta_max = Inr (VDelta timedelta_max)
   \<and> Delta_resolution = Inr (VDelta timedelta_resolution)
   \<and> timedelta_resolution = 1
   \<and> td_days timedelta_resolution = 0 \<and> td_seconds timedelta_resolution = 0
   \<and> td_microseconds timedelta_resolution = 1
   \<and> microseconds_to_delta (timedelta_min - 1) = Inl OverflowError
   \<and> microseconds_to_delta (timedelta_max + 1) = Inl OverflowError
   \<and> Delta_new (PyInt 0) (PyInt 0) (PyInt 0) (PyInt 0) (PyInt 0) (PyInt 0) (PyInt 0)
       = Inr (VDelta 0)
   \<and> timedelta_lt (VDelta timedelta_min) (VDelta 0) = Inr True
   \<and> timedelta_lt (VDelta 0) (VDelta timedelta_max) = Inr True"
  by (simp add: Delta_min_def Delta_max_def Delta_resolution_def Delta_new_def
      timedelta_new_ints microseconds_to_delta_def td_days_def td_seconds_def
      td_microseconds_def us_per_day_def timedelta_min_def timedelta_max_def
      timedelta_resolution_def timedelta_lt_def and_then_def)

subsection \<open>The conversion from the native type\<close>

lemma fromtimedelta_cases:
  "(\<exists>e. fromtimedelta us = Inl e) \<or> (\<exists>r. fromtimedelta us = Inr (VDelta r))"
  by (auto simp: fromtimedelta_def Delta_new_def and_then_def split: sum.splits)

lemma fromtimedelta_is_Delta: "fromtimedelta us = Inr v \<Longrightarrow> is_Delta v"
  using fromtimedelta_cases [of us] by (auto simp: is_Delta_def)

lemma fromtimedelta_not_bare: "fromtimedelta us \<noteq> Inr (VTimedelta t)"
  using fromtimedelta_is_Delta [of us "VTimedelta t"] by (auto simp: is_Delta_def)

text \<open>
  Claim C4 says that \<open>Delta.fromtimedelta(d)\<close> has the same total elapsed time as \<open>d\<close>
  for every native duration \<open>d\<close>. The conversion goes through the float
  \<open>d.total_seconds()\<close>, which has 53 significant bits, and long durations do not survive
  it. For \<open>d = timedelta.max\<close> the float is \<open>86400000000000.0\<close>, one microsecond more
  than \<open>d\<close>, that is 1000000000 days, and the constructor raises \<open>OverflowError\<close>. For
  \<open>d = timedelta(days=109500, microseconds=1)\<close> the result is two microseconds past
  109500 days, not one.
\<close>

theorem fromtimedelta_loses_precision:
  "total_seconds timedelta_max = 86400000000000
   \<and> fromtimedelta timedelta_max = Inl OverflowError
   \<and> fromtimedelta (109500 * us_per_day + 1) = Inr (VDelta (109500 * us_per_day + 2))"
  by code_simp

subsection \<open>The decorated operators\<close>

lemma asdelta_items_not_bare:
  "asdelta_items items = Inr vs \<Longrightarrow> VTimedelta t \<notin> set vs"
proof (induction items arbitrary: vs)
  case Nil
  then show ?case by simp
next
  case (Cons item items)
  then show ?case
    by (cases item) (auto simp: and_then_def fromtimedelta_not_bare split: sum.splits)
qed

lemma asdelta_not_bare: "asdelta func self other \<noteq> Inr (VTimedelta t)"
proof (cases "func self other")
  case (Inl e)
  then show ?thesis by (simp add: asdelta_def and_then_def)
next
  case (Inr result)
  then show ?thesis
    by (cases result) (auto simp: asdelta_def and_then_def fromtimedelta_not_bare split: sum.splits)
qed

lemma asdelta_of_timedelta:
  "func self other = Inr (VTimedelta us) \<Longrightarrow> asdelta func self other = fromtimedelta us"
  by (simp add: asdelta_def and_then_def)

lemma asdelta_native_duration:
  assumes "\<And>r. func self other = Inr r \<Longrightarrow> is_bare_timedelta r"
    and "asdelta func self other = Inr v"
  shows "is_Delta v"
proof (cases "func self other")
  case (Inl e)
  with assms(2) show ?thesis by (simp add: asdelta_def and_then_def)
next
  case (Inr r)
  with assms(1) obtain us where "r = VTimedelta us"
    by (cases r) (auto simp: is_bare_timedelta_def)
  with Inr assms(2) show ?thesis
    by (simp add: asdelta_of_timedelta fromtimedelta_is_Delta)
qed

lemma new_delta_bare: "new_delta us = Inr r \<Longrightarrow> is_bare_timedelta r"
  by (auto simp: new_delta_def and_then_def is_bare_timedelta_def split: sum.splits)

lemma Delta_add_closed: "Delta_add a (VDelta b) = Inr v \<Longrightarrow> is_Delta v"
  unfolding Delta_add_def
  by (rule asdelta_native_duration) (auto simp: timedelta_add_def dest: new_delta_bare)

lemma Delta_radd_closed: "Delta_radd a (VDelta b) = Inr v \<Longrightarrow> is_Delta v"
  unfolding Delta_radd_def
  by (rule asdelta_native_duration) (auto simp: timedelta_radd_def dest: new_delta_bare)

lemma Delta_sub_closed: "Delta_sub a (VDelta b) = Inr v \<Longrightarrow> is_Delta v"
  unfolding Delta_sub_def
  by (rule asdelta_native_duration) (auto simp: timedelta_sub_def dest: new_delta_bare)

lemma Delta_mul_closed: "Delta_mul a (VInt k) = Inr v \<Longrightarrow> is_Delta v"
  unfolding Delta_mul_def
  by (rule asdelta_native_duration) (auto simp: timedelta_mul_def dest: new_delta_bare)

lemma Delta_rmul_closed: "Delta_rmul a (VInt k) = Inr v \<Longrightarrow> is_Delta v"
  unfolding Delta_rmul_def
  by (rule asdelta_native_duration) (auto simp: timedelta_rmul_def dest: new_delta_bare)

lemma Delta_floordiv_closed: "Delta_floordiv a (VInt k) = Inr v \<Longrightarrow> is_Delta v"
  unfolding Delta_floordiv_def
  by (rule asdelta_native_duration)
     (auto simp: timedelta_floordiv_def dest: new_delta_bare split: if_splits)

lemma Delta_truediv_closed: "Delta_truediv a (VInt k) = Inr v \<Longrightarrow> is_Delta v"
  unfolding Delta_truediv_def
  by (rule asdelta_native_duration)
     (auto simp: timedelta_truediv_def dest: new_delta_bare split: if_splits)

lemma Delta_mod_closed: "Delta_mod a (VDelta b) = Inr v \<Longrightarrow> is_Delta v"
  unfolding Delta_mod_def
  by (rule asdelta_native_duration)
     (auto simp: timedelta_mod_def dest: new_delta_bare split: if_splits)

lemma Delta_divmod_closed:
  assumes "Delta_divmod a (VDelta b) = Inr v"
  shows "\<exists>q r. v = VTuple [VInt q, VDelta r]"
proof -
  from assms have nz: "b \<noteq> 0"
    by (auto simp: Delta_divmod_def asdelta_def timedelta_divmod_def and_then_def
        split: if_splits)
  from assms nz obtain t where t: "new_delta (a mod b) = Inr t"
    by (cases "new_delta (a mod b)")
       (auto simp: Delta_divmod_def asdelta_def timedelta_divmod_def and_then_def)
  then obtain us where us: "t = VTimedelta us"
    by (auto simp: new_delta_def and_then_def split: sum.splits)
  from fromtimedelta_cases [of us] assms nz t us show ?thesis
    by (auto simp: Delta_divmod_def asdelta_def timedelta_divmod_def and_then_def)
qed

lemma Delta_operators_never_bare:
  "Delta_add a x \<noteq> Inr (VTimedelta t)" "Delta_radd a x \<noteq> Inr (VTimedelta t)"
  "Delta_sub a x \<noteq> Inr (VTimedelta t)" "Delta_mul a x \<noteq> Inr (VTimedelta t)"
  "Delta_rmul a x \<noteq> Inr (VTimedelta t)" "Delta_floordiv a x \<noteq> Inr (VTimedelta t)"
  "Delta_truediv a x \<noteq> Inr (VTimedelta t)" "Delta_mod a x \<noteq> Inr (VTimedelta t)"
  "Delta_divmod a x \<noteq> Inr (VTimedelta t)"
  by (simp_all add: Delta_add_def Delta_radd_def Delta_sub_def Delta_mul_def Delta_rmul_def
      Delta_floordiv_def Delta_truediv_def Delta_mod_def Delta_divmod_def asdelta_not_bare)

lemma Delta_divmod_items_never_bare:
  assumes "Delta_divmod a x = Inr (VTuple vs)"
  shows "VTimedelta t \<notin> set vs"
proof (cases "timedelta_divmod a x")
  case (Inl e)
  with assms show ?thesis by (simp add: Delta_divmod_def asdelta_def and_then_def)
next
  case (Inr result)
  with assms show ?thesis
    by (cases result)
       (auto simp: Delta_divmod_def asdelta_def and_then_def fromtimedelta_not_bare
          timedelta_divmod_def new_delta_def microseconds_to_delta_def
          dest: fromtimedelta_is_Delta asdelta_items_not_bare
          split: sum.splits option.splits if_splits)
qed

text \<open>
  Claim C5. For all \<open>Delta\<close> values \<open>a\<close>, \<open>b\<close> and every integer \<open>k\<close>, whenever one of
  \<open>a + b\<close>, the reflected \<open>b + a\<close>, \<open>a - b\<close>, \<open>a * k\<close>, \<open>k * a\<close>, \<open>a // k\<close>, \<open>a / k\<close> and
  \<open>a % b\<close> returns, it returns a \<open>Delta\<close>, and \<open>divmod(a, b)\<close> returns a pair of a plain
  integer and a \<open>Delta\<close>. Whatever the other operand, none of the nine operators returns a
  value of the bare native duration type, also not inside the pair of \<open>divmod\<close>.
\<close>

theorem Delta_arithmetic_closed:
  "(\<forall>v. Delta_add a (VDelta b) = Inr v \<longrightarrow> is_Delta v)
   \<and> (\<forall>v. Delta_radd a (VDelta b) = Inr v \<longrightarrow> is_Delta v)
   \<and> (\<forall>v. Delta_sub a (VDelta b) = Inr v \<longrightarrow> is_Delta v)
   \<and> (\<forall>v. Delta_mul a (VInt k) = Inr v \<longrightarrow> is_Delta v)
   \<and> (\<forall>v. Delta_rmul a (VInt k) = Inr v \<longrightarrow> is_Delta v)
   \<and> (\<forall>v. Delta_floordiv a (VInt k) = Inr v \<longrightarrow> is_Delta v)
   \<and> (\<forall>v. Delta_truediv a (VInt k) = Inr v \<longrightarrow> is_Delta v)
   \<and> (\<forall>v. Delta_mod a (VDelta b) = Inr v \<longrightarrow> is_Delta v)
   \<and> (\<forall>v. Delta_divmod a (VDelta b) = Inr v \<longrightarrow> (\<exists>q r. v = VTuple [VInt q, VDelta r]))
   \<and> (\<forall>x t. Delta_add a x \<noteq> Inr (VTimedelta t) \<and> Delta_radd a x \<noteq> Inr (VTimedelta t)
        \<and> Delta_sub a x \<noteq> Inr (VTimedelta t) \<and> Delta_mul a x \<noteq> Inr (VTimedelta t)
        \<and> Delta_rmul a x \<noteq> Inr (VTimedelta t) \<and> Delta_floordiv a x \<noteq> Inr (VTimedelta t)
        \<and> Delta_truediv a x \<noteq> Inr (VTimedelta t) \<and> Delta_mod a x \<noteq> Inr (VTimedelta t)
        \<and> Delta_divmod a x \<noteq> Inr (VTimedelta t)
        \<and> (\<forall>vs. Delta_divmod a x = Inr (VTuple vs) \<longrightarrow> VTimedelta t \<notin> set vs))"
  by (intro conjI allI impI)
     (erule Delta_add_closed Delta_radd_closed Delta_sub_closed Delta_mul_closed
        Delta_rmul_closed Delta_floordiv_closed Delta_truediv_closed Delta_mod_closed
        Delta_divmod_closed Delta_divmod_items_never_bare
      | rule Delta_operators_never_bare)+

lemma Delta_operators_example:
  "Delta_add 5000000 (VDelta 2000000) = Inr (VDelta 7000000)"
  "Delta_radd 5000000 (VDelta 2000000) = Inr (VDelta 7000000)"
  "Delta_sub 5000000 (VDelta 2000000) = Inr (VDelta 3000000)"
  "Delta_mul 5000000 (VInt 3) = Inr (VDelta 15000000)"
  "Delta_rmul 5000000 (VInt 3) = Inr (VDelta 15000000)"
  "Delta_floordiv 5000000 (VInt 3) = Inr (VDelta 1666666)"
  "Delta_truediv 5000000 (VInt 3) = Inr (VDelta 1666667)"
  "Delta_mod 5000000 (VDelta 2000000) = Inr (VDelta 1000000)"
  "Delta_divmod 5000000 (VDelta 2000000) = Inr (VTuple [VInt 2, VDelta 1000000])"
  by code_simp+

theorem Delta_arithmetic_closed_witness:
  "Delta_add 5000000 (VDelta 2000000) = Inr (VDelta 7000000) \<and> is_Delta (VDelta 7000000)
   \<and> Delta_radd 5000000 (VDelta 2000000) = Inr (VDelta 7000000)
   \<and> Delta_sub 5000000 (VDelta 2000000) = Inr (VDelta 3000000) \<and> is_Delta (VDelta 3000000)
   \<and> Delta_mul 5000000 (VInt 3) = Inr (VDelta 15000000) \<and> is_Delta (VDelta 15000000)
   \<and> Delta_rmul 5000000 (VInt 3) = Inr (VDelta 15000000)
   \<and> Delta_floordiv 5000000 (VInt 3) = Inr (VDelta 1666666) \<and> is_Delta (VDelta 1666666)
   \<and> Delta_truediv 5000000 (VInt 3) = Inr (VDelta 1666667) \<and> is_Delta (VDelta 1666667)
   \<and> Delta_mod 5000000 (VDelta 2000000) = Inr (VDelta 1000000) \<and> is_Delta (VDelta 1000000)
   \<and> Delta_divmod 5000000 (VDelta 2000000) = Inr (VTuple [VInt 2, VDelta 1000000])
   \<and> VTimedelta 1000000 \<notin> set [VInt 2, VDelta 1000000]"
  using Delta_arithmetic_closed [of 5000000 2000000 3] Delta_operators_example
  by simp

section \<open>Properties of \<open>DateTime\<close>\<close>

subsection \<open>The constructor\<close>

lemma datetime_new_Inr:
  "datetime_new y mo d hh mi s us = Inr n \<longleftrightarrow>
     (n = \<lparr>n_year = y, n_month = mo, n_day = d, n_hour = hh, n_minute = mi, n_second = s,
           n_microsecond = us\<rparr> \<and> valid_naive n)"
  by (auto simp: datetime_new_def Let_def)

lemma datetime_new_fields:
  "valid_naive n \<Longrightarrow>
     datetime_new (n_year n) (n_month n) (n_day n) (n_hour n) (n_minute n) (n_second n)
       (n_microsecond n) = Inr n"
  by (cases n) (simp add: datetime_new_def Let_def)

lemma utcoffset_at_UTC [simp]: "utcoffset_at (tz_zone pytz_UTC) u = 0"
  by (simp add: pytz_UTC_def utcoffset_at_def)

lemma pytz_localize_UTC [simp]:
  "pytz_localize (tz_zone pytz_UTC) n = Inr \<lparr>dt_naive = n, dt_tzinfo = Some pytz_UTC, dt_off = 0\<rparr>"
  by (simp add: pytz_localize_def pytz_UTC_def)

lemma native_astimezone_same [simp]:
  "dt_tzinfo d = Some tz \<Longrightarrow> native_astimezone d tz = Inr d"
  by (simp add: native_astimezone_def)

lemma native_astimezone_other:
  assumes "native_astimezone d tz = Inr r" and "dt_tzinfo d \<noteq> Some tz"
  shows "valid_naive (dt_naive r)" and "dt_tzinfo r = Some tz"
    and "dt_off r = utcoffset_at (tz_zone tz) (naive_to_us (dt_naive d) - dt_off d)"
    and "naive_to_us (dt_naive r) = naive_to_us (dt_naive d) - dt_off d + dt_off r"
proof -
  from assms obtain own where own: "dt_tzinfo d = Some own" "own \<noteq> tz"
    by (cases "dt_tzinfo d") (auto simp: native_astimezone_def)
  from assms(1) own obtain utc where utc: "naive_of_us (naive_to_us (dt_naive d) - dt_off d) = Inr utc"
    by (cases "naive_of_us (naive_to_us (dt_naive d) - dt_off d)")
       (auto simp: native_astimezone_def split: if_splits)
  note u = naive_of_us_Inr [OF utc]
  define off where "off = utcoffset_at (tz_zone tz) (naive_to_us (dt_naive d) - dt_off d)"
  from assms(1) own utc u(1) obtain n where
    n: "naive_of_us (naive_to_us (dt_naive d) - dt_off d + off) = Inr n"
    and r: "r = \<lparr>dt_naive = n, dt_tzinfo = Some tz, dt_off = off\<rparr>"
    by (cases "naive_of_us (naive_to_us (dt_naive d) - dt_off d + off)")
       (auto simp: native_astimezone_def Let_def off_def split: if_splits)
  note v = naive_of_us_Inr [OF n]
  show "valid_naive (dt_naive r)" "dt_tzinfo r = Some tz"
    "dt_off r = utcoffset_at (tz_zone tz) (naive_to_us (dt_naive d) - dt_off d)"
    "naive_to_us (dt_naive r) = naive_to_us (dt_naive d) - dt_off d + dt_off r"
    using v by (simp_all add: r off_def)
qed

lemma native_astimezone_total:
  assumes "dt_tzinfo d = Some own" "own \<noteq> tz"
    and "- us_per_day < dt_off d" "dt_off d < us_per_day"
    and "naive_of_us (naive_to_us (dt_naive d) - dt_off d) = Inr utc"
    and "naive_of_us (naive_to_us (dt_naive d) - dt_off d
            + utcoffset_at (tz_zone tz) (naive_to_us (dt_naive d) - dt_off d)) = Inr n"
  shows "native_astimezone d tz =
           Inr \<lparr>dt_naive = n, dt_tzinfo = Some tz,
                dt_off = utcoffset_at (tz_zone tz) (naive_to_us (dt_naive d) - dt_off d)\<rparr>"
  using assms naive_of_us_Inr(1) [OF assms(5)]
  by (simp add: native_astimezone_def Let_def)

lemma pytz_localize_Inr:
  assumes "pytz_localize z n = Inr d"
  shows "dt_naive d = n" "dt_tzinfo d = Some (Pytz z)"
    "utcoffset_at z (naive_to_us n - dt_off d) = dt_off d"
    "Pytz z = pytz_UTC \<Longrightarrow> dt_off d = 0"
proof -
  show "dt_naive d = n" "dt_tzinfo d = Some (Pytz z)"
    using assms by (auto simp: pytz_localize_def Let_def split: if_splits list.splits)
  show "utcoffset_at z (naive_to_us n - dt_off d) = dt_off d"
  proof (cases "z_trans z = []")
    case True
    with assms show ?thesis by (auto simp: pytz_localize_def utcoffset_at_def)
  next
    case False
    with assms obtain u where c: "candidates z (naive_to_us n) = [u]"
      and o: "dt_off d = naive_to_us n - u"
      by (auto simp: pytz_localize_def Let_def split: if_splits list.splits)
    from c have "u \<in> set (candidates z (naive_to_us n))" by simp
    then show ?thesis unfolding o by (auto simp: candidates_def)
  qed
  show "dt_off d = 0" if "Pytz z = pytz_UTC"
    using assms that by (auto simp: pytz_localize_def pytz_UTC_def)
qed

lemma localized_cases:
  "localized tzinfo n = pytz_localize (tz_zone pytz_UTC) n
   \<or> (\<exists>z. tzinfo = TzObj (Pytz z) \<and> localized tzinfo n = pytz_localize z n)
   \<or> (\<exists>z. tzinfo = TzObj (Plain z) \<and> localized tzinfo n = Inr (replace_tzinfo n z))"
proof (cases tzinfo)
  case (TzObj tz)
  then show ?thesis by (cases tz) (simp_all add: localized_def)
qed (simp_all add: localized_def)

lemma localized_Inr:
  assumes "localized tzinfo n = Inr d"
  shows "dt_naive d = n" "dt_tzinfo d \<noteq> None" "dt_tzinfo d = Some pytz_UTC \<Longrightarrow> dt_off d = 0"
proof -
  from localized_cases [of tzinfo n]
  have "dt_naive d = n \<and> dt_tzinfo d \<noteq> None \<and> (dt_tzinfo d = Some pytz_UTC \<longrightarrow> dt_off d = 0)"
  proof (elim disjE exE conjE)
    assume "localized tzinfo n = pytz_localize (tz_zone pytz_UTC) n"
    with assms have "d = \<lparr>dt_naive = n, dt_tzinfo = Some pytz_UTC, dt_off = 0\<rparr>" by simp
    then show ?thesis by simp
  next
    fix z assume "localized tzinfo n = pytz_localize z n"
    with assms have "pytz_localize z n = Inr d" by simp
    from pytz_localize_Inr [OF this] show ?thesis by simp
  next
    fix z assume "localized tzinfo n = Inr (replace_tzinfo n z)"
    with assms have "d = replace_tzinfo n z" by simp
    then show ?thesis by (simp add: replace_tzinfo_def pytz_UTC_def)
  qed
  then show "dt_naive d = n" "dt_tzinfo d \<noteq> None" "dt_tzinfo d = Some pytz_UTC \<Longrightarrow> dt_off d = 0"
    by simp_all
qed

lemma DateTime_init_unfold:
  "DateTime_init h y mo d hh mi s us tzinfo =
     and_then (case tzinfo of
                 TzName name \<Rightarrow>
                   if name \<noteq> [] then and_then (pytz_timezone h name) (\<lambda>z. Inr (TzObj z))
                   else Inr tzinfo
               | _ \<Rightarrow> Inr tzinfo)
       (\<lambda>tzinfo.
          and_then (datetime_new y mo d hh mi s us)
            (\<lambda>naive.
               and_then (localized tzinfo naive)
                 (\<lambda>dt. and_then (native_astimezone dt pytz_UTC)
                         (\<lambda>utc. Inr \<lparr>datetime = utc\<rparr>))))"
  by (simp add: DateTime_init_def localized_def)

lemma DateTime_init_inv:
  assumes "DateTime_init h y mo d hh mi s us tzinfo = Inr x"
  shows "DateTime_inv x"
proof -
  from assms obtain tz' n dt utc where
    n: "datetime_new y mo d hh mi s us = Inr n"
    and l: "localized tz' n = Inr dt"
    and a: "native_astimezone dt pytz_UTC = Inr utc"
    and x: "x = \<lparr>datetime = utc\<rparr>"
    unfolding DateTime_init_unfold and_then_eq_Inr by blast
  show ?thesis
  proof (cases "dt_tzinfo dt = Some pytz_UTC")
    case True
    with a have "utc = dt" by simp
    with True localized_Inr [OF l] n show ?thesis
      by (auto simp: DateTime_inv_def x datetime_new_Inr)
  next
    case False
    from native_astimezone_other [OF a False] show ?thesis
      by (simp add: DateTime_inv_def x)
  qed
qed

end
